theory Spec2Isabelle
  imports Main "HOL-Library.AList"
begin

section \<open>Strings, numbers and timestamps\<close>

text \<open>
  A Python \<open>str\<close> is modelled by its UTF-8 encoding, a list of bytes (\<open>string\<close>).
  Every character the program inspects (the nine forbidden symbols, the separator
  \<open>&\<close>, the percent sign) is ASCII, and an ASCII byte never occurs inside the
  encoding of another code point, so deleting or comparing such characters on the bytes
  agrees with Python's behaviour on code points. \<open>urllib.parse.quote\<close> works on the
  UTF-8 bytes anyway.
\<close>

text \<open>\<open>sep.join(parts)\<close>\<close>

fun str_join :: "string \<Rightarrow> string list \<Rightarrow> string" where
  "str_join sep [] = []"
| "str_join sep [x] = x"
| "str_join sep (x # y # ys) = x @ sep @ str_join sep (y # ys)"

text \<open>\<open>s.split(sep)\<close> for a one-character separator.\<close>

fun str_split :: "char \<Rightarrow> string \<Rightarrow> string list" where
  "str_split sep [] = [[]]"
| "str_split sep (c # cs) =
     (if c = sep then [] # str_split sep cs
      else (case str_split sep cs of
              [] \<Rightarrow> [[c]]
            | p # ps \<Rightarrow> (c # p) # ps))"

text \<open>\<open>str(n)\<close> for an integer: decimal digits, with a minus sign when negative.\<close>

definition decimal_digits :: string where
  "decimal_digits = ''0123456789''"

definition digit_char :: "nat \<Rightarrow> char" where
  "digit_char d = decimal_digits ! d"

fun str_nat :: "nat \<Rightarrow> string" where
  "str_nat n = (if n < 10 then [digit_char n] else str_nat (n div 10) @ [digit_char (n mod 10)])"

declare str_nat.simps [simp del]

definition str_int :: "int \<Rightarrow> string" where
  "str_int i = (if i < 0 then CHR ''-'' # str_nat (nat (- i)) else str_nat (nat i))"

text \<open>\<open>s.zfill(w)\<close> on a string of digits.\<close>

definition zfill :: "nat \<Rightarrow> string \<Rightarrow> string" where
  "zfill w s = replicate (w - length s) CHR ''0'' @ s"

text \<open>
  \<open>datetime.datetime\<close>: the six fields the program formats. The values come from
  \<open>strptime\<close> with \<open>%Y-%m-%d %H:%M:%S\<close>, which accepts four-digit years only.
  \<open>strftime\<close> interprets the directives \<open>%Y %m %d %H %M %S\<close> and copies every other
  character. Month, day, hour, minute and second are zero padded to two digits. The year
  is printed as CPython prints it with the C library of Linux: in decimal, without
  leading zeros, so that a year below 1000 has fewer than four digits.
\<close>

record datetime =
  year :: nat
  month :: nat
  day :: nat
  hour :: nat
  minute :: nat
  second :: nat

definition directive :: "datetime \<Rightarrow> char \<Rightarrow> string" where
  "directive t d =
     (if d = CHR ''Y'' then str_nat (year t)
      else if d = CHR ''m'' then zfill 2 (str_nat (month t))
      else if d = CHR ''d'' then zfill 2 (str_nat (day t))
      else if d = CHR ''H'' then zfill 2 (str_nat (hour t))
      else if d = CHR ''M'' then zfill 2 (str_nat (minute t))
      else if d = CHR ''S'' then zfill 2 (str_nat (second t))
      else [CHR ''%'', d])"

fun strftime :: "datetime \<Rightarrow> string \<Rightarrow> string" where
  "strftime t [] = []"
| "strftime t [c] = [c]"
| "strftime t (c # d # fmt) =
     (if c = CHR ''%'' then directive t d @ strftime t fmt
      else c # strftime t (d # fmt))"

declare strftime.simps [simp del]

section \<open>Percent-encoding\<close>

text \<open>
  \<open>urllib.parse.quote(s)\<close> with its default \<open>safe='/'\<close>: a byte among the
  unreserved characters or equal to \<open>/\<close> is copied, every other byte becomes
  \<open>%XX\<close> with two upper-case hexadecimal digits.
\<close>

definition ALWAYS_SAFE :: string where
  "ALWAYS_SAFE = ''ABCDEFGHIJKLMNOPQRSTUVWXYZabcdefghijklmnopqrstuvwxyz0123456789_.-~''"

definition hex_digits :: string where
  "hex_digits = ''0123456789ABCDEF''"

definition hex_digit :: "nat \<Rightarrow> char" where
  "hex_digit d = hex_digits ! d"

definition safe_char :: "char \<Rightarrow> bool" where
  "safe_char c \<longleftrightarrow> c \<in> set ALWAYS_SAFE \<or> c = CHR ''/''"

definition quote_byte :: "char \<Rightarrow> string" where
  "quote_byte c =
     (if safe_char c then [c]
      else [CHR ''%'', hex_digit (of_char c div 16), hex_digit (of_char c mod 16)])"

definition quote :: "string \<Rightarrow> string" where
  "quote s = concat (map quote_byte s)"

section \<open>URL builder\<close>

text \<open>
  A value of the \<open>params\<close> dictionary is either a string or an integer;
  \<open>str(v)\<close> turns it into text.
\<close>

datatype param_value = PStr string | PInt int

fun str_value :: "param_value \<Rightarrow> string" where
  "str_value (PStr s) = s"
| "str_value (PInt i) = str_int i"

text \<open>
  The dictionary literal has eight distinct keys, so \<open>params.items()\<close> yields them in
  the order written.
\<close>

definition params :: "datetime \<Rightarrow> datetime \<Rightarrow> string \<Rightarrow> int \<Rightarrow> int \<Rightarrow> (string \<times> param_value) list" where
  "params start_time end_time item_id width height =
     [(''from'', PStr (strftime start_time ''%Y-%m-%d %H:%M:%S'')),
      (''to'', PStr (strftime end_time ''%Y-%m-%d %H:%M:%S'')),
      (''itemids[0]'', PStr item_id),
      (''type'', PStr ''0''),
      (''profileIdx'', PStr ''web.item.graph.filter''),
      (''profileIdx2'', PStr item_id),
      (''width'', PInt width),
      (''height'', PInt height)]"

definition query_string :: "datetime \<Rightarrow> datetime \<Rightarrow> string \<Rightarrow> int \<Rightarrow> int \<Rightarrow> string" where
  "query_string start_time end_time item_id width height =
     str_join ''&''
       (map (\<lambda>(k, v). k @ ''='' @ quote (str_value v))
            (params start_time end_time item_id width height))"

definition generate_graph_url ::
  "string \<Rightarrow> datetime \<Rightarrow> datetime \<Rightarrow> string \<Rightarrow> int \<Rightarrow> int \<Rightarrow> string" where
  "generate_graph_url zabbix_host start_time end_time item_id width height =
     (''https://'' @ zabbix_host @ ''/chart.php'') @ ''?'' @
     query_string start_time end_time item_id width height"

section \<open>Filename sanitizer\<close>

definition FORBIDDEN_SYMBOLS :: "char list" where
  "FORBIDDEN_SYMBOLS =
     [CHR ''<'', CHR ''>'', CHR '':'', CHR 0x22, CHR ''/'', CHR 0x5C, CHR ''|'', CHR ''?'', CHR ''*'']"

text \<open>\<open>s.replace(symbol, "")\<close> for a one-character \<open>symbol\<close>.\<close>

definition replace_empty :: "char \<Rightarrow> string \<Rightarrow> string" where
  "replace_empty symbol s = filter (\<lambda>c. c \<noteq> symbol) s"

text \<open>The loop over \<open>FORBIDDEN_SYMBOLS\<close>, one \<open>replace\<close> per symbol.\<close>

fun sanitize_loop :: "char list \<Rightarrow> string \<Rightarrow> string" where
  "sanitize_loop [] sanitized_name = sanitized_name"
| "sanitize_loop (symbol # symbols) sanitized_name =
     sanitize_loop symbols (replace_empty symbol sanitized_name)"

definition sanitize_filename :: "string \<Rightarrow> string" where
  "sanitize_filename filename = sanitize_loop FORBIDDEN_SYMBOLS filename"

section \<open>Configuration, environment and world\<close>

text \<open>
  The module-level configuration. \<open>ZABBIX_HOST\<close> (derived from the API URL when the
  module is loaded) and the two parsed timestamps are taken as given.
\<close>

record config =
  ZABBIX_API_URL :: string
  ZABBIX_API_TOKEN :: string
  ZABBIX_HOST :: string
  WEB_UI_USERNAME :: string
  WEB_UI_PASSWORD :: string
  HOST_LIST :: "string list"
  start_time :: datetime
  end_time :: datetime
  RESULTING_IMAGE_WIDTH :: int
  RESULTING_IMAGE_HEIGHT :: int
  DOWNLOAD_RETRY_COUNT :: int

text \<open>
  The exceptions that occur. \<open>RequestException\<close> stands for a transport failure raised
  by \<open>requests\<close> (connection refused, timeout): it is not an \<open>HTTPError\<close>.
\<close>

datatype exn = HTTPError | JSONDecodeError | KeyError | IndexError | RequestException

text \<open>A JSON object or Python \<open>dict\<close> with string values, in insertion order.\<close>

type_synonym dict = "(string \<times> string) list"

definition getitem :: "dict \<Rightarrow> string \<Rightarrow> exn + string" where
  "getitem d k = (case map_of d k of None \<Rightarrow> Inl KeyError | Some v \<Rightarrow> Inr v)"

text \<open>
  What an HTTP call gives: the library raises, or there is a response with a status
  code and a body. \<open>raise_for_status\<close> raises for the codes 400 to 599.
\<close>

datatype 'b reply = Raises | Response nat 'b

definition raise_for_status :: "nat \<Rightarrow> bool" where
  "raise_for_status status \<longleftrightarrow> 400 \<le> status \<and> status < 600"

text \<open>
  The body of an API response as \<open>json.loads\<close> and the lookup of \<open>result\<close> see it:
  not JSON at all, an object without the \<open>result\<close> field, or an object whose
  \<open>result\<close> is a list of objects.
\<close>

datatype api_body = Not_json | Json_without_result | Json_result "dict list"

text \<open>
  What \<open>open(file_path, 'wb')\<close> followed by \<open>write\<close> comes to: the body is written;
  \<open>open\<close> raises (the directory is missing, the name is too long) and nothing changes;
  or \<open>write\<close> raises after \<open>open\<close> has created the file, which is left with part of
  the body.
\<close>

datatype write_outcome = Written | Open_raises | Write_raises string

text \<open>
  The environment answers the requests and fixes the working directory. An API request
  is identified by URL, bearer token, method and argument (the host name of
  \<open>host.get\<close>, the host id of \<open>item.get\<close>); an image request by URL, headers and the
  number of the attempt; the writing of a file by its path and the number of the attempt.
\<close>

record env =
  login_post :: "string \<Rightarrow> dict \<Rightarrow> dict reply"
  api_post :: "string \<Rightarrow> string \<Rightarrow> string \<Rightarrow> string \<Rightarrow> api_body reply"
  image_post :: "string \<Rightarrow> dict \<Rightarrow> nat \<Rightarrow> string reply"
  getcwd :: string
  file_write :: "string \<Rightarrow> nat \<Rightarrow> write_outcome"

text \<open>The lines the program prints.\<close>

datatype log_line =
    Log_saved string
  | Log_got nat string nat int
  | Log_error string nat int
  | Log_failed string int
  | Log_processing string
  | Log_no_host string
  | Log_host_id_failed string exn
  | Log_items_failed string exn
  | Log_skipping string
  | Log_no_images
  | Log_starting nat
  | Log_completed
  | Log_authenticated
  | Log_auth_http_error exn
  | Log_auth_failed exn

text \<open>Everything the program does to the outside, in the order it happens.\<close>

datatype event =
    Login_request string dict
  | Api_request string string string string
  | Image_request string dict
  | Make_dirs string
  | Write_file string string
  | Partial_write string string
  | Print log_line

text \<open>
  The world: the regular files with their contents, the directories, and the events so
  far.
\<close>

record world =
  files :: "string \<rightharpoonup> string"
  dirs :: "string set"
  events :: "event list"

definition emit :: "event \<Rightarrow> world \<Rightarrow> world" where
  "emit e w = w\<lparr>events := events w @ [e]\<rparr>"

text \<open>
  \<open>os.path.exists\<close>, \<open>os.makedirs(p, exist_ok=True)\<close>, a write that goes through, and
  a write that raises and leaves part of the body in the file.
\<close>

definition path_exists :: "world \<Rightarrow> string \<Rightarrow> bool" where
  "path_exists w p \<longleftrightarrow> files w p \<noteq> None \<or> p \<in> dirs w"

definition makedirs :: "string \<Rightarrow> world \<Rightarrow> world" where
  "makedirs p w = emit (Make_dirs p) (w\<lparr>dirs := insert p (dirs w)\<rparr>)"

definition write_file :: "string \<Rightarrow> string \<Rightarrow> world \<Rightarrow> world" where
  "write_file p content w = emit (Write_file p content) (w\<lparr>files := (files w)(p \<mapsto> content)\<rparr>)"

definition write_partial :: "string \<Rightarrow> string \<Rightarrow> world \<Rightarrow> world" where
  "write_partial p part w = emit (Partial_write p part) (w\<lparr>files := (files w)(p \<mapsto> part)\<rparr>)"

text \<open>\<open>os.path.join(a, b)\<close> (POSIX).\<close>

definition os_path_join :: "string \<Rightarrow> string \<Rightarrow> string" where
  "os_path_join a b =
     (if b \<noteq> [] \<and> hd b = CHR ''/'' then b
      else if a = [] \<or> last a = CHR ''/'' then a @ b
      else a @ ''/'' @ b)"

section \<open>Host and item enumeration\<close>

text \<open>
  The common body of \<open>get_host_id\<close> and \<open>get_item_list\<close>: post, \<open>raise_for_status\<close>,
  \<open>json.loads\<close>, then \<open>response_data['result']\<close>. What it returns or raises is decided
  by the reply alone; the world records the request.
\<close>

definition api_result :: "config \<Rightarrow> env \<Rightarrow> string \<Rightarrow> string \<Rightarrow> exn + dict list" where
  "api_result cfg env method arg =
     (case api_post env (ZABBIX_API_URL cfg) (ZABBIX_API_TOKEN cfg) method arg of
        Raises \<Rightarrow> Inl RequestException
      | Response status body \<Rightarrow>
          if raise_for_status status then Inl HTTPError
          else (case body of
                  Not_json \<Rightarrow> Inl JSONDecodeError
                | Json_without_result \<Rightarrow> Inl KeyError
                | Json_result r \<Rightarrow> Inr r))"

definition json_rpc :: "config \<Rightarrow> env \<Rightarrow> string \<Rightarrow> string \<Rightarrow> world \<Rightarrow> (exn + dict list) \<times> world" where
  "json_rpc cfg env method arg w =
     (api_result cfg env method arg,
      emit (Api_request (ZABBIX_API_URL cfg) (ZABBIX_API_TOKEN cfg) method arg) w)"

definition get_host_id :: "config \<Rightarrow> env \<Rightarrow> string \<Rightarrow> world \<Rightarrow> (exn + dict list) \<times> world" where
  "get_host_id cfg env host_name w = json_rpc cfg env ''host.get'' host_name w"

definition get_item_list :: "config \<Rightarrow> env \<Rightarrow> string \<Rightarrow> world \<Rightarrow> (exn + dict list) \<times> world" where
  "get_item_list cfg env host_id w = json_rpc cfg env ''item.get'' host_id w"

section \<open>Queue builder\<close>

text \<open>
  The download queue is a Python \<open>dict\<close> from URL to file path:
  \<open>download_queue[url] = path\<close> replaces the value of a key that is present and appends
  a new key at the end, which is \<open>AList.update\<close>.
\<close>

type_synonym queue = "(string \<times> string) list"

text \<open>The file name and path of an item (the three assignments before the test).\<close>

definition time_str :: "config \<Rightarrow> string" where
  "time_str cfg =
     strftime (start_time cfg) ''%Y-%m-%d_%H%M%S'' @ ''_'' @
     strftime (end_time cfg) ''%Y-%m-%d_%H%M%S''"

definition item_filename :: "config \<Rightarrow> string \<Rightarrow> string \<Rightarrow> string \<Rightarrow> string" where
  "item_filename cfg host_name item_name item_id =
     host_name @ ''_'' @ item_name @ ''_'' @ item_id @ ''_'' @ time_str cfg @ ''.png''"

text \<open>The loop over the items of one host. A missing key of an item raises.\<close>

fun item_loop ::
  "config \<Rightarrow> string \<Rightarrow> string \<Rightarrow> dict list \<Rightarrow> queue \<Rightarrow> world \<Rightarrow> (exn + queue) \<times> world" where
  "item_loop cfg host_name host_dir [] download_queue w = (Inr download_queue, w)"
| "item_loop cfg host_name host_dir (item # items) download_queue w =
     (case getitem item ''itemid'' of
        Inl e \<Rightarrow> (Inl e, w)
      | Inr item_id \<Rightarrow>
          (case getitem item ''name'' of
             Inl e \<Rightarrow> (Inl e, w)
           | Inr name \<Rightarrow>
               (let item_name = sanitize_filename name;
                    filename = item_filename cfg host_name item_name item_id;
                    file_path = os_path_join host_dir filename
                in if path_exists w file_path
                   then item_loop cfg host_name host_dir items download_queue
                          (emit (Print (Log_skipping file_path)) w)
                   else item_loop cfg host_name host_dir items
                          (AList.update
                             (generate_graph_url (ZABBIX_HOST cfg) (start_time cfg) (end_time cfg)
                                item_id (RESULTING_IMAGE_WIDTH cfg) (RESULTING_IMAGE_HEIGHT cfg))
                             file_path download_queue)
                          w)))"

text \<open>
  The first \<open>try\<close> block: resolve the host. \<open>None\<close> is the \<open>continue\<close> after
  "No host found".
\<close>

definition resolve_host ::
  "config \<Rightarrow> env \<Rightarrow> string \<Rightarrow> world \<Rightarrow> (exn + string option) \<times> world" where
  "resolve_host cfg env host_name w =
     (case get_host_id cfg env host_name w of
        (Inl e, w1) \<Rightarrow> (Inl e, w1)
      | (Inr host_info, w1) \<Rightarrow>
          (case host_info of
             [] \<Rightarrow> (Inr None, emit (Print (Log_no_host host_name)) w1)
           | first # _ \<Rightarrow>
               (case getitem first ''hostid'' of
                  Inl e \<Rightarrow> (Inl e, w1)
                | Inr host_id \<Rightarrow> (Inr (Some host_id), w1))))"

text \<open>The two \<open>except\<close> clauses.\<close>

definition caught_host_id :: "exn \<Rightarrow> bool" where
  "caught_host_id e \<longleftrightarrow> e = HTTPError \<or> e = JSONDecodeError \<or> e = KeyError \<or> e = IndexError"

definition caught_items :: "exn \<Rightarrow> bool" where
  "caught_items e \<longleftrightarrow> e = HTTPError \<or> e = JSONDecodeError"

text \<open>
  The loop over the configured hosts. An exception that no clause catches leaves the
  function: the result is \<open>Inl\<close> and no queue is returned.
\<close>

fun host_loop ::
  "config \<Rightarrow> env \<Rightarrow> string list \<Rightarrow> queue \<Rightarrow> world \<Rightarrow> (exn + queue) \<times> world" where
  "host_loop cfg env [] download_queue w = (Inr download_queue, w)"
| "host_loop cfg env (host_name # hosts) download_queue w =
     (case resolve_host cfg env host_name (emit (Print (Log_processing host_name)) w) of
        (Inl e, w1) \<Rightarrow>
          if caught_host_id e
          then host_loop cfg env hosts download_queue
                 (emit (Print (Log_host_id_failed host_name e)) w1)
          else (Inl e, w1)
      | (Inr None, w1) \<Rightarrow> host_loop cfg env hosts download_queue w1
      | (Inr (Some host_id), w1) \<Rightarrow>
          (let host_dir = os_path_join (getcwd env) host_name;
               w2 = makedirs host_dir w1
           in case get_item_list cfg env host_id w2 of
                (Inl e, w3) \<Rightarrow>
                  if caught_items e
                  then host_loop cfg env hosts download_queue
                         (emit (Print (Log_items_failed host_name e)) w3)
                  else (Inl e, w3)
              | (Inr items, w3) \<Rightarrow>
                  (case item_loop cfg host_name host_dir items download_queue w3 of
                     (Inl e, w4) \<Rightarrow> (Inl e, w4)
                   | (Inr download_queue', w4) \<Rightarrow> host_loop cfg env hosts download_queue' w4)))"

definition create_download_queue ::
  "config \<Rightarrow> env \<Rightarrow> dict \<Rightarrow> world \<Rightarrow> (exn + queue) \<times> world" where
  "create_download_queue cfg env cookies w = host_loop cfg env (HOST_LIST cfg) [] w"

section \<open>Downloader\<close>

text \<open>
  The retry loop, over the attempt numbers of \<open>range(retry_count)\<close>. Every exception
  inside the \<open>try\<close> is caught and consumes the attempt: one raised by the request, and
  one raised by \<open>open\<close> or \<open>write\<close> after an answer with status 200.
\<close>

fun attempt_loop ::
  "env \<Rightarrow> string \<Rightarrow> string \<Rightarrow> dict \<Rightarrow> int \<Rightarrow> nat list \<Rightarrow> world \<Rightarrow> bool \<times> world" where
  "attempt_loop env image_url file_path cookies retry_count [] w =
     (False, emit (Print (Log_failed image_url retry_count)) w)"
| "attempt_loop env image_url file_path cookies retry_count (attempt # attempts) w =
     (let w1 = emit (Image_request image_url cookies) w
      in case image_post env image_url cookies attempt of
           Raises \<Rightarrow>
             attempt_loop env image_url file_path cookies retry_count attempts
               (emit (Print (Log_error image_url (attempt + 1) retry_count)) w1)
         | Response status_code content \<Rightarrow>
             if status_code = 200
             then (case file_write env file_path attempt of
                     Written \<Rightarrow>
                       (True, emit (Print (Log_saved file_path)) (write_file file_path content w1))
                   | Open_raises \<Rightarrow>
                       attempt_loop env image_url file_path cookies retry_count attempts
                         (emit (Print (Log_error image_url (attempt + 1) retry_count)) w1)
                   | Write_raises part \<Rightarrow>
                       attempt_loop env image_url file_path cookies retry_count attempts
                         (emit (Print (Log_error image_url (attempt + 1) retry_count))
                            (write_partial file_path part w1)))
             else attempt_loop env image_url file_path cookies retry_count attempts
                    (emit (Print (Log_got status_code image_url (attempt + 1) retry_count)) w1))"

definition download_image ::
  "env \<Rightarrow> string \<Rightarrow> string \<Rightarrow> dict \<Rightarrow> int \<Rightarrow> world \<Rightarrow> bool \<times> world" where
  "download_image env image_url file_path cookies retry_count w =
     attempt_loop env image_url file_path cookies retry_count [0..<nat retry_count] w"

text \<open>
  One thread per queue entry, all joined before the function returns. The threads share
  nothing but the file system, and what one thread does there does not change what
  another does; they are run here one after the other, in the order of the queue.
\<close>

fun download_all :: "config \<Rightarrow> env \<Rightarrow> dict \<Rightarrow> queue \<Rightarrow> world \<Rightarrow> world" where
  "download_all cfg env cookies [] w = w"
| "download_all cfg env cookies ((url, file_path) # entries) w =
     download_all cfg env cookies entries
       (snd (download_image env url file_path cookies (DOWNLOAD_RETRY_COUNT cfg) w))"

definition download_images_multithreaded :: "config \<Rightarrow> env \<Rightarrow> queue \<Rightarrow> dict \<Rightarrow> world \<Rightarrow> world" where
  "download_images_multithreaded cfg env download_queue cookies w =
     (if download_queue = [] then emit (Print Log_no_images) w
      else emit (Print Log_completed)
             (download_all cfg env cookies download_queue
                (emit (Print (Log_starting (length download_queue))) w)))"

section \<open>Authentication and the main function\<close>

definition login_url :: "config \<Rightarrow> string" where
  "login_url cfg = ''https://'' @ ZABBIX_HOST cfg"

definition login_data :: "config \<Rightarrow> dict" where
  "login_data cfg =
     [(''form'', ''1''), (''form_refresh'', ''1''),
      (''name'', WEB_UI_USERNAME cfg), (''password'', WEB_UI_PASSWORD cfg),
      (''enter'', ''Enter'')]"

text \<open>
  The session posts the form; \<open>raise_for_status\<close>; the cookies of the session become one
  \<open>Cookie\<close> header.
\<close>

definition get_auth_cookies :: "config \<Rightarrow> env \<Rightarrow> world \<Rightarrow> (exn + dict) \<times> world" where
  "get_auth_cookies cfg env w =
     (let w1 = emit (Login_request (login_url cfg) (login_data cfg)) w
      in case login_post env (login_url cfg) (login_data cfg) of
           Raises \<Rightarrow> (Inl RequestException, w1)
         | Response status cookie_dict \<Rightarrow>
             if raise_for_status status then (Inl HTTPError, w1)
             else (Inr [(''Cookie'', str_join ''; '' (map (\<lambda>(k, v). k @ ''='' @ v) cookie_dict))],
                   w1))"

text \<open>
  \<open>main\<close> returns nothing; \<open>Inl\<close> is an exception that leaves it uncaught.
\<close>

definition main :: "config \<Rightarrow> env \<Rightarrow> world \<Rightarrow> (exn + unit) \<times> world" where
  "main cfg env w =
     (case get_auth_cookies cfg env w of
        (Inl e, w1) \<Rightarrow>
          if e = HTTPError then (Inr (), emit (Print (Log_auth_http_error e)) w1)
          else (Inr (), emit (Print (Log_auth_failed e)) w1)
      | (Inr cookies, w1) \<Rightarrow>
          (case create_download_queue cfg env cookies (emit (Print Log_authenticated) w1) of
             (Inl e, w2) \<Rightarrow> (Inl e, w2)
           | (Inr download_queue, w2) \<Rightarrow>
               (Inr (), download_images_multithreaded cfg env download_queue cookies w2)))"

section \<open>Observations on a run\<close>

text \<open>Names for the URL and the file path that the loop body computes for an item.\<close>

definition item_url :: "config \<Rightarrow> string \<Rightarrow> string" where
  "item_url cfg item_id =
     generate_graph_url (ZABBIX_HOST cfg) (start_time cfg) (end_time cfg) item_id
       (RESULTING_IMAGE_WIDTH cfg) (RESULTING_IMAGE_HEIGHT cfg)"

definition item_file_path :: "config \<Rightarrow> env \<Rightarrow> string \<Rightarrow> string \<Rightarrow> string \<Rightarrow> string" where
  "item_file_path cfg env host_name name item_id =
     os_path_join (os_path_join (getcwd env) host_name)
       (item_filename cfg host_name (sanitize_filename name) item_id)"

text \<open>
  The items that the loop over the hosts hands to the loop over the items: the listing of
  the first host record, and nothing for a host that is skipped.
\<close>

definition host_items :: "config \<Rightarrow> env \<Rightarrow> string \<Rightarrow> dict list" where
  "host_items cfg env host_name =
     (case api_result cfg env ''host.get'' host_name of
        Inr (first # _) \<Rightarrow>
          (case getitem first ''hostid'' of
             Inr host_id \<Rightarrow>
               (case api_result cfg env ''item.get'' host_id of
                  Inr items \<Rightarrow> items
                | Inl _ \<Rightarrow> [])
           | Inl _ \<Rightarrow> [])
      | _ \<Rightarrow> [])"

text \<open>
  The exception, if any, that leaves the body of the loop for a host before its items are
  looked at: one that the \<open>except\<close> clause in force does not catch.
\<close>

definition host_raises :: "config \<Rightarrow> env \<Rightarrow> string \<Rightarrow> exn option" where
  "host_raises cfg env host_name =
     (case api_result cfg env ''host.get'' host_name of
        Inl e \<Rightarrow> if caught_host_id e then None else Some e
      | Inr [] \<Rightarrow> None
      | Inr (first # _) \<Rightarrow>
          (case getitem first ''hostid'' of
             Inl e \<Rightarrow> if caught_host_id e then None else Some e
           | Inr host_id \<Rightarrow>
               (case api_result cfg env ''item.get'' host_id of
                  Inl e \<Rightarrow> if caught_items e then None else Some e
                | Inr items \<Rightarrow> None)))"



text \<open>The events of a kind, counted or collected.\<close>

fun is_image_request :: "event \<Rightarrow> bool" where
  "is_image_request (Image_request _ _) = True"
| "is_image_request _ = False"

definition image_requests :: "world \<Rightarrow> nat" where
  "image_requests w = length (filter is_image_request (events w))"

fun written_path :: "event \<Rightarrow> string option" where
  "written_path (Write_file p _) = Some p"
| "written_path _ = None"

definition writes_to :: "string \<Rightarrow> world \<Rightarrow> nat" where
  "writes_to p w = length (filter (\<lambda>e. written_path e = Some p) (events w))"

section \<open>A concrete run\<close>

text \<open>
  Two hosts and the time range 2024-01-01 to 2024-01-02. The server knows \<open>srv-a\<close>, which
  has the one item \<open>CPU\<close> with id 1, and answers the lookup of \<open>srv-b\<close> with status 500.
  The image is served at the second attempt, and every file can be written.
\<close>

definition scenario_cfg :: config where
  "scenario_cfg =
     \<lparr>ZABBIX_API_URL = ''https://zbx/api_jsonrpc.php'', ZABBIX_API_TOKEN = ''token'',
      ZABBIX_HOST = ''zbx'', WEB_UI_USERNAME = ''user'', WEB_UI_PASSWORD = ''secret'',
      HOST_LIST = [''srv-a'', ''srv-b''],
      start_time = \<lparr>year = 2024, month = 1, day = 1, hour = 0, minute = 0, second = 0\<rparr>,
      end_time = \<lparr>year = 2024, month = 1, day = 2, hour = 0, minute = 0, second = 0\<rparr>,
      RESULTING_IMAGE_WIDTH = 1920, RESULTING_IMAGE_HEIGHT = 200, DOWNLOAD_RETRY_COUNT = 3\<rparr>"

definition scenario_api :: "string \<Rightarrow> string \<Rightarrow> string \<Rightarrow> string \<Rightarrow> api_body reply" where
  "scenario_api url token method arg =
     (if method = ''host.get''
      then (if arg = ''srv-a'' then Response 200 (Json_result [[(''hostid'', ''10'')]])
            else Response 500 Not_json)
      else Response 200
             (Json_result [[(''itemid'', ''1''), (''hostid'', ''10''), (''name'', ''CPU'')]]))"

definition scenario_env :: env where
  "scenario_env =
     \<lparr>login_post = (\<lambda>url form. Response 200 [(''zbx_session'', ''abc'')]),
      api_post = scenario_api,
      image_post = (\<lambda>url headers attempt. if attempt < 1 then Response 503 [] else Response 200 ''PNG''),
      getcwd = ''/work'',
      file_write = (\<lambda>path attempt. Written)\<rparr>"

definition fresh_world :: world where
  "fresh_world = \<lparr>files = Map.empty, dirs = {}, events = []\<rparr>"


text \<open>
  The image endpoint answers every request with status 200, and \<open>open\<close> raises for
  every file, or \<open>write\<close> raises and leaves an empty file.
\<close>

definition unwritable_env :: env where
  "unwritable_env =
     scenario_env\<lparr>image_post := (\<lambda>url headers attempt. Response 200 ''PNG''),
                  file_write := (\<lambda>path attempt. Open_raises)\<rparr>"

definition truncating_env :: env where
  "truncating_env =
     scenario_env\<lparr>image_post := (\<lambda>url headers attempt. Response 200 ''PNG''),
                  file_write := (\<lambda>path attempt. Write_raises [])\<rparr>"

text \<open>The same run when the configured start of the time range is in the year 999.\<close>

definition early_cfg :: config where
  "early_cfg =
     scenario_cfg\<lparr>start_time :=
       \<lparr>year = 999, month = 1, day = 1, hour = 0, minute = 0, second = 0\<rparr>\<rparr>"



text \<open>A server that knows both hosts, each with one item.\<close>

definition two_host_api :: "string \<Rightarrow> string \<Rightarrow> string \<Rightarrow> string \<Rightarrow> api_body reply" where
  "two_host_api url token method arg =
     (if method = ''host.get''
      then (if arg = ''srv-a'' then Response 200 (Json_result [[(''hostid'', ''10'')]])
            else Response 200 (Json_result [[(''hostid'', ''20'')]]))
      else (if arg = ''10''
            then Response 200
                   (Json_result [[(''itemid'', ''1''), (''hostid'', ''10''), (''name'', ''CPU'')]])
            else Response 200
                   (Json_result [[(''itemid'', ''2''), (''hostid'', ''20''), (''name'', ''Memory'')]])))"

definition two_host_env :: env where
  "two_host_env = scenario_env\<lparr>api_post := two_host_api\<rparr>"

text \<open>A server that lists two items with the same item id for \<open>srv-a\<close>.\<close>

definition shared_id_api :: "string \<Rightarrow> string \<Rightarrow> string \<Rightarrow> string \<Rightarrow> api_body reply" where
  "shared_id_api url token method arg =
     (if method = ''host.get''
      then (if arg = ''srv-a'' then Response 200 (Json_result [[(''hostid'', ''10'')]])
            else Response 500 Not_json)
      else Response 200
             (Json_result [[(''itemid'', ''1''), (''hostid'', ''10''), (''name'', ''CPU'')],
                           [(''itemid'', ''1''), (''hostid'', ''10''), (''name'', ''Load'')]]))"

definition shared_id_env :: env where
  "shared_id_env = scenario_env\<lparr>api_post := shared_id_api\<rparr>"

text \<open>The same server when it rejects the login, and when it cannot be reached.\<close>

definition rejecting_env :: env where
  "rejecting_env = scenario_env\<lparr>login_post := (\<lambda>url form. Response 401 [])\<rparr>"

definition unreachable_env :: env where
  "unreachable_env = scenario_env\<lparr>login_post := (\<lambda>url form. Raises)\<rparr>"

text \<open>
  A server that knows both hosts and answers \<open>item.get\<close> for \<open>srv-a\<close> (host id 10) with
  a JSON-RPC error object, which has no \<open>result\<close> field, and the same server when it
  answers \<open>host.get\<close> for \<open>srv-a\<close> that way instead.
\<close>

definition error_object_api :: "string \<Rightarrow> string \<Rightarrow> string \<Rightarrow> string \<Rightarrow> api_body reply" where
  "error_object_api url token method arg =
     (if method = ''host.get''
      then (if arg = ''srv-a'' then Response 200 (Json_result [[(''hostid'', ''10'')]])
            else Response 200 (Json_result [[(''hostid'', ''20'')]]))
      else (if arg = ''10'' then Response 200 Json_without_result
            else Response 200
                   (Json_result [[(''itemid'', ''2''), (''hostid'', ''20''), (''name'', ''Memory'')]])))"

definition error_object_env :: env where
  "error_object_env = scenario_env\<lparr>api_post := error_object_api\<rparr>"

definition error_object_api_host :: "string \<Rightarrow> string \<Rightarrow> string \<Rightarrow> string \<Rightarrow> api_body reply" where
  "error_object_api_host url token method arg =
     (if method = ''host.get''
      then (if arg = ''srv-a'' then Response 200 Json_without_result
            else Response 200 (Json_result [[(''hostid'', ''20'')]]))
      else Response 200
             (Json_result [[(''itemid'', ''2''), (''hostid'', ''20''), (''name'', ''Memory'')]]))"

definition error_object_env_host :: env where
  "error_object_env_host = scenario_env\<lparr>api_post := error_object_api_host\<rparr>"

section \<open>The sanitizer deletes exactly the forbidden characters\<close>

lemma sanitize_loop_filter: "sanitize_loop syms s = filter (\<lambda>c. c \<notin> set syms) s"
  by (induction syms arbitrary: s) (auto simp: replace_empty_def intro: filter_cong)

lemma sanitize_filename_filter:
  "sanitize_filename s = filter (\<lambda>c. c \<notin> set FORBIDDEN_SYMBOLS) s"
  by (simp add: sanitize_filename_def sanitize_loop_filter)

lemma set_FORBIDDEN_SYMBOLS:
  "set FORBIDDEN_SYMBOLS =
     {CHR ''<'', CHR ''>'', CHR '':'', CHR 0x22, CHR ''/'', CHR 0x5C, CHR ''|'', CHR ''?'', CHR ''*''}"
  by (simp add: FORBIDDEN_SYMBOLS_def)

text \<open>
  Claim C6. For every input string, the output of \<open>sanitize_filename\<close> contains none of
  the nine characters \<open>< > : " / \ | ? *\<close>, and it is the input with every occurrence
  of these characters deleted: nothing is put in their place, nothing else is removed,
  the order and the repetitions of the other characters are kept.
\<close>

theorem sanitize_filename_deletes_forbidden:
  "set (sanitize_filename s) \<inter>
     {CHR ''<'', CHR ''>'', CHR '':'', CHR 0x22, CHR ''/'', CHR 0x5C, CHR ''|'', CHR ''?'', CHR ''*''} = {}
   \<and> sanitize_filename s =
     filter (\<lambda>c. c \<notin> {CHR ''<'', CHR ''>'', CHR '':'', CHR 0x22, CHR ''/'', CHR 0x5C, CHR ''|'',
                        CHR ''?'', CHR ''*''}) s"
  unfolding sanitize_filename_filter set_FORBIDDEN_SYMBOLS by auto

text \<open>
  Claim C7. \<open>sanitize_filename\<close> is idempotent, and it returns its argument unchanged
  when the argument contains none of the nine forbidden characters.
\<close>

theorem sanitize_filename_idempotent:
  "sanitize_filename (sanitize_filename s) = sanitize_filename s \<and>
   (set s \<inter> {CHR ''<'', CHR ''>'', CHR '':'', CHR 0x22, CHR ''/'', CHR 0x5C, CHR ''|'', CHR ''?'',
              CHR ''*''} = {}
    \<longrightarrow> sanitize_filename s = s)"
proof -
  have "set s \<inter> set FORBIDDEN_SYMBOLS = {} \<Longrightarrow> filter (\<lambda>c. c \<notin> set FORBIDDEN_SYMBOLS) s = s"
    by (induction s) auto
  then show ?thesis
    unfolding sanitize_filename_filter set_FORBIDDEN_SYMBOLS by simp
qed

theorem sanitize_filename_idempotent_witness:
  "set ''CPU load'' \<inter> {CHR ''<'', CHR ''>'', CHR '':'', CHR 0x22, CHR ''/'', CHR 0x5C, CHR ''|'',
                        CHR ''?'', CHR ''*''} = {}
   \<and> sanitize_filename ''CPU load'' = ''CPU load''
   \<and> sanitize_filename (sanitize_filename ''a<b>:c'') = sanitize_filename ''a<b>:c''"
  using sanitize_filename_idempotent [of "''CPU load''"]
        sanitize_filename_idempotent [of "''a<b>:c''"]
  by simp

section \<open>Percent-encoding and the shape of the URL\<close>

lemma quote_append: "quote (a @ b) = quote a @ quote b"
  by (simp add: quote_def)

lemma quote_Nil: "quote [] = []"
  by (simp add: quote_def)

lemma quote_Cons: "quote (c # s) = quote_byte c @ quote s"
  by (simp add: quote_def)

lemma quote_safe: "\<forall>c\<in>set s. safe_char c \<Longrightarrow> quote s = s"
  by (induction s) (simp_all add: quote_Nil quote_Cons quote_byte_def)

lemma digit_char_mem: "d < 10 \<Longrightarrow> digit_char d \<in> set decimal_digits"
  unfolding digit_char_def by (rule nth_mem) (simp add: decimal_digits_def)

lemma str_nat_digits: "set (str_nat n) \<subseteq> set decimal_digits"
proof (induction n rule: str_nat.induct)
  case (1 n)
  show ?case
  proof (cases "n < 10")
    case True
    then show ?thesis using digit_char_mem [of n] by (subst str_nat.simps) simp
  next
    case False
    have "n mod 10 < 10" by simp
    then have "digit_char (n mod 10) \<in> set decimal_digits" by (rule digit_char_mem)
    with 1 False show ?thesis by (subst str_nat.simps) simp
  qed
qed

lemma of_char_less_256: "(of_char c :: nat) < 256"
proof -
  have "(of_char c :: nat) mod 256 < 256" by simp
  then show ?thesis by (simp only: of_char_mod_256)
qed

lemma hex_digit_mem: "d < 16 \<Longrightarrow> hex_digit d \<in> set hex_digits"
  unfolding hex_digit_def by (rule nth_mem) (simp add: hex_digits_def)

lemma digits_subset_safe: "set decimal_digits \<subseteq> set ALWAYS_SAFE"
  by (simp add: ALWAYS_SAFE_def decimal_digits_def)

lemma digits_safe: "c \<in> set decimal_digits \<Longrightarrow> safe_char c"
  using digits_subset_safe unfolding safe_char_def by blast

lemma zero_digit: "CHR ''0'' \<in> set decimal_digits"
  by (simp add: decimal_digits_def)

lemma quote_str_nat: "quote (str_nat n) = str_nat n"
  using str_nat_digits [of n] by (intro quote_safe) (blast intro: digits_safe)

lemma zfill_digits: "set (zfill w (str_nat n)) \<subseteq> set decimal_digits"
  using str_nat_digits [of n] zero_digit by (auto simp: zfill_def)

lemma quote_zfill_str_nat: "quote (zfill w (str_nat n)) = zfill w (str_nat n)"
  using zfill_digits [of w n] by (intro quote_safe) (blast intro: digits_safe)

lemma minus_safe: "safe_char CHR ''-''"
  by (simp add: safe_char_def ALWAYS_SAFE_def)

lemma quote_str_int: "quote (str_int i) = str_int i"
proof (rule quote_safe, rule ballI)
  fix c assume "c \<in> set (str_int i)"
  then have "c = CHR ''-'' \<or> c \<in> set decimal_digits"
    using str_nat_digits by (auto simp: str_int_def split: if_splits)
  then show "safe_char c"
    using minus_safe digits_safe by blast
qed


lemma strftime_url_format:
  "strftime t ''%Y-%m-%d %H:%M:%S'' =
     str_nat (year t) @ ''-'' @ zfill 2 (str_nat (month t)) @ ''-'' @
     zfill 2 (str_nat (day t)) @ '' '' @ zfill 2 (str_nat (hour t)) @ '':'' @
     zfill 2 (str_nat (minute t)) @ '':'' @ zfill 2 (str_nat (second t))"
  by (simp add: strftime.simps directive_def)


lemma quote_literals:
  "quote ''-'' = ''-''" "quote '' '' = ''%20''" "quote '':'' = ''%3A''"
  "quote ''0'' = ''0''" "quote ''web.item.graph.filter'' = ''web.item.graph.filter''"
  by (simp_all add: quote_def quote_byte_def safe_char_def ALWAYS_SAFE_def hex_digit_def hex_digits_def)

lemma quote_strftime:
  "quote (strftime t ''%Y-%m-%d %H:%M:%S'') =
     str_nat (year t) @ ''-'' @ zfill 2 (str_nat (month t)) @ ''-'' @
     zfill 2 (str_nat (day t)) @ ''%20'' @ zfill 2 (str_nat (hour t)) @ ''%3A'' @
     zfill 2 (str_nat (minute t)) @ ''%3A'' @ zfill 2 (str_nat (second t))"
  unfolding strftime_url_format quote_append quote_zfill_str_nat quote_str_nat quote_literals ..

lemma hex_digit_not_amp: "d < 16 \<Longrightarrow> hex_digit d \<noteq> CHR ''&''"
proof -
  assume "d < 16"
  then have "hex_digit d \<in> set hex_digits" by (rule hex_digit_mem)
  moreover have "CHR ''&'' \<notin> set hex_digits" by (simp add: hex_digits_def)
  ultimately show ?thesis by metis
qed

lemma amp_notin_quote_byte: "CHR ''&'' \<notin> set (quote_byte c)"
proof -
  have "(of_char c :: nat) div 16 < 16" using of_char_less_256 [of c] by arith
  then have h1: "hex_digit (of_char c div 16) \<noteq> CHR ''&''" by (rule hex_digit_not_amp)
  have "(of_char c :: nat) mod 16 < 16" by simp
  then have h2: "hex_digit (of_char c mod 16) \<noteq> CHR ''&''" by (rule hex_digit_not_amp)
  have h3: "CHR ''&'' \<notin> set ALWAYS_SAFE" by (simp add: ALWAYS_SAFE_def)
  show ?thesis
  proof (cases "c \<in> set ALWAYS_SAFE \<or> c = CHR ''/''")
    case True
    then have "quote_byte c = [c]" by (simp add: quote_byte_def safe_char_def)
    moreover from True h3 have "c \<noteq> CHR ''&''" by auto
    ultimately show ?thesis by simp
  next
    case False
    then have "quote_byte c = [CHR ''%'', hex_digit (of_char c div 16), hex_digit (of_char c mod 16)]"
      by (simp add: quote_byte_def safe_char_def)
    with h1 h2 show ?thesis by simp
  qed
qed

lemma amp_notin_quote: "CHR ''&'' \<notin> set (quote s)"
  by (induction s) (simp_all add: quote_Nil quote_Cons amp_notin_quote_byte)

lemma str_split_no_sep: "sep \<notin> set x \<Longrightarrow> str_split sep x = [x]"
  by (induction x) auto

lemma str_split_append: "sep \<notin> set x \<Longrightarrow> str_split sep (x @ sep # rest) = x # str_split sep rest"
  by (induction x) auto


lemma str_split_join:
  "xs \<noteq> [] \<Longrightarrow> \<forall>x\<in>set xs. sep \<notin> set x \<Longrightarrow> str_split sep (str_join [sep] xs) = xs"
proof (induction "[sep]" xs rule: str_join.induct)
  case 1
  then show ?case by simp
next
  case (2 x)
  then show ?case by (simp add: str_split_no_sep)
next
  case (3 x y ys)
  then show ?case by (simp add: str_split_append)
qed

lemma query_string_unfold:
  "query_string st et item_id width height =
     ''from='' @ quote (strftime st ''%Y-%m-%d %H:%M:%S'') @
     ''&to='' @ quote (strftime et ''%Y-%m-%d %H:%M:%S'') @
     ''&itemids[0]='' @ quote item_id @
     ''&type=0'' @
     ''&profileIdx=web.item.graph.filter'' @
     ''&profileIdx2='' @ quote item_id @
     ''&width='' @ quote (str_int width) @
     ''&height='' @ quote (str_int height)"
  by (simp add: query_string_def params_def quote_literals)

lemma query_string_split:
  "str_split CHR ''&'' (query_string st et item_id width height) =
     [''from='' @ quote (strftime st ''%Y-%m-%d %H:%M:%S''),
      ''to='' @ quote (strftime et ''%Y-%m-%d %H:%M:%S''),
      ''itemids[0]='' @ quote item_id,
      ''type=0'',
      ''profileIdx=web.item.graph.filter'',
      ''profileIdx2='' @ quote item_id,
      ''width='' @ quote (str_int width),
      ''height='' @ quote (str_int height)]"
proof -
  let ?xs = "map (\<lambda>(k, v). k @ ''='' @ quote (str_value v)) (params st et item_id width height)"
  have "?xs \<noteq> []" by (simp add: params_def)
  moreover have "\<forall>x\<in>set ?xs. CHR ''&'' \<notin> set x"
    by (simp add: params_def amp_notin_quote)
  ultimately have "str_split CHR ''&'' (str_join ''&'' ?xs) = ?xs"
    by (rule str_split_join)
  then show ?thesis
    by (simp add: query_string_def params_def quote_literals)
qed

lemma length_str_nat: "0 < k \<Longrightarrow> n < 10 ^ k \<Longrightarrow> length (str_nat n) \<le> k"
proof (induction n arbitrary: k rule: str_nat.induct)
  case (1 n)
  show ?case
  proof (cases "n < 10")
    case True
    with "1.prems" show ?thesis by (subst str_nat.simps) simp
  next
    case False
    with "1.prems" have k: "1 < k" by (cases "k = 1") auto
    then obtain j where j: "k = Suc j" "0 < j" by (cases k) auto
    from "1.prems" j have "n div 10 < 10 ^ j" by (simp add: less_mult_imp_div_less mult.commute)
    with "1.IH" [OF False j(2)] have "length (str_nat (n div 10)) \<le> j" by simp
    with False j show ?thesis by (subst str_nat.simps) simp
  qed
qed

lemma length_zfill_str_nat: "0 < k \<Longrightarrow> n < 10 ^ k \<Longrightarrow> length (zfill k (str_nat n)) = k"
  using length_str_nat [of k n] by (simp add: zfill_def)

lemma length_str_nat_lower: "10 ^ k \<le> n \<Longrightarrow> k < length (str_nat n)"
proof (induction n arbitrary: k rule: str_nat.induct)
  case (1 n)
  show ?case
  proof (cases "n < 10")
    case True
    have "k = 0"
    proof (cases k)
      case 0
      then show ?thesis .
    next
      case (Suc j)
      have "(1::nat) \<le> 10 ^ j" by simp
      then have "(10::nat) \<le> 10 ^ k" using Suc by simp
      with "1.prems" True show ?thesis by simp
    qed
    with True show ?thesis by (subst str_nat.simps) simp
  next
    case False
    show ?thesis
    proof (cases k)
      case 0
      with False show ?thesis by (subst str_nat.simps) simp
    next
      case (Suc j)
      with "1.prems" have "10 ^ j \<le> n div 10" by simp
      with "1.IH" [OF False] have "j < length (str_nat (n div 10))" by simp
      with False Suc show ?thesis by (subst str_nat.simps) simp
    qed
  qed
qed

lemma length_str_nat_year: "1000 \<le> n \<Longrightarrow> n < 10000 \<Longrightarrow> length (str_nat n) = 4"
  using length_str_nat [of 4 n] length_str_nat_lower [of 3 n] by simp

lemma hex_digit_inj: "a < 16 \<Longrightarrow> b < 16 \<Longrightarrow> hex_digit a = hex_digit b \<Longrightarrow> a = b"
proof -
  assume a: "a < 16" and b: "b < 16" and eq: "hex_digit a = hex_digit b"
  have d: "distinct hex_digits" by (simp add: hex_digits_def)
  have l: "length hex_digits = 16" by (simp add: hex_digits_def)
  from d a b l have "(hex_digits ! a = hex_digits ! b) = (a = b)"
    by (intro nth_eq_iff_index_eq) simp_all
  with eq show ?thesis by (simp add: hex_digit_def)
qed

lemma hex_pair_inj:
  assumes "hex_digit (of_char x div 16) = hex_digit (of_char y div 16)"
    and "hex_digit (of_char x mod 16) = hex_digit (of_char y mod 16)"
  shows "x = y"
proof -
  have dx: "(of_char x :: nat) div 16 < 16" using of_char_less_256 [of x] by arith
  have dy: "(of_char y :: nat) div 16 < 16" using of_char_less_256 [of y] by arith
  have "(of_char x :: nat) div 16 = of_char y div 16"
    using hex_digit_inj [OF dx dy] assms(1) by simp
  moreover have "(of_char x :: nat) mod 16 = of_char y mod 16"
    using hex_digit_inj [of "of_char x mod 16" "of_char y mod 16"] assms(2) by simp
  ultimately have "(of_char x :: nat) = of_char y"
    by (metis div_mult_mod_eq)
  then show ?thesis by simp
qed

lemma percent_not_safe: "\<not> safe_char CHR ''%''"
  by (simp add: safe_char_def ALWAYS_SAFE_def)

lemma quote_byte_prefix_free:
  assumes "quote_byte x @ r1 = quote_byte y @ r2"
  shows "x = y \<and> r1 = r2"
proof (cases "safe_char x")
  case sx: True
  show ?thesis
  proof (cases "safe_char y")
    case True
    with sx assms show ?thesis by (simp add: quote_byte_def)
  next
    case False
    with sx assms have "x = CHR ''%''" by (simp add: quote_byte_def)
    with sx percent_not_safe show ?thesis by simp
  qed
next
  case ux: False
  show ?thesis
  proof (cases "safe_char y")
    case True
    with ux assms have "y = CHR ''%''" by (simp add: quote_byte_def)
    with True percent_not_safe show ?thesis by simp
  next
    case False
    with ux assms have "hex_digit (of_char x div 16) = hex_digit (of_char y div 16)"
      and "hex_digit (of_char x mod 16) = hex_digit (of_char y mod 16)" and "r1 = r2"
      by (simp_all add: quote_byte_def)
    then show ?thesis using hex_pair_inj by blast
  qed
qed

lemma quote_byte_not_Nil: "quote_byte c \<noteq> []"
  by (simp add: quote_byte_def)

lemma quote_inj: "quote a = quote b \<Longrightarrow> a = b"
proof (induction a arbitrary: b)
  case Nil
  then show ?case by (cases b) (simp_all add: quote_Nil quote_Cons quote_byte_not_Nil)
next
  case (Cons x a)
  show ?case
  proof (cases b)
    case Nil
    with Cons.prems show ?thesis by (simp add: quote_Nil quote_Cons quote_byte_not_Nil)
  next
    case (Cons y b')
    with Cons.prems have "quote_byte x @ quote a = quote_byte y @ quote b'"
      by (simp add: quote_Cons)
    then have "x = y \<and> quote a = quote b'" by (rule quote_byte_prefix_free)
    with Cons.IH Cons show ?thesis by simp
  qed
qed

lemma split_at_first:
  assumes "a @ c # x = b @ c # y" and "c \<notin> set a" and "c \<notin> set b"
  shows "a = b"
proof -
  have "takeWhile (\<lambda>z. z \<noteq> c) (a @ c # x) = a"
    using assms(2) by (auto simp: takeWhile_tail)
  moreover have "takeWhile (\<lambda>z. z \<noteq> c) (b @ c # y) = b"
    using assms(3) by (auto simp: takeWhile_tail)
  ultimately show ?thesis using assms(1) by simp
qed

lemma url_decompose:
  "generate_graph_url z st et i w h =
     (''https://'' @ z @ ''/chart.php?from='' @ quote (strftime st ''%Y-%m-%d %H:%M:%S'') @
      ''&to='' @ quote (strftime et ''%Y-%m-%d %H:%M:%S'') @ ''&itemids[0]='') @
     quote i @ CHR ''&'' #
     (''type=0&profileIdx=web.item.graph.filter&profileIdx2='' @ quote i @
      ''&width='' @ quote (str_int w) @ ''&height='' @ quote (str_int h))"
  by (simp add: generate_graph_url_def query_string_unfold)

lemma generate_graph_url_inj:
  assumes "generate_graph_url z st et i w h = generate_graph_url z st et j w h"
  shows "i = j"
proof -
  from assms have "quote i @ CHR ''&'' #
     (''type=0&profileIdx=web.item.graph.filter&profileIdx2='' @ quote i @
      ''&width='' @ quote (str_int w) @ ''&height='' @ quote (str_int h)) =
     quote j @ CHR ''&'' #
     (''type=0&profileIdx=web.item.graph.filter&profileIdx2='' @ quote j @
      ''&width='' @ quote (str_int w) @ ''&height='' @ quote (str_int h))"
    unfolding url_decompose by (simp only: same_append_eq)
  then have "quote i = quote j"
    by (rule split_at_first) (rule amp_notin_quote)+
  then show ?thesis by (rule quote_inj)
qed


text \<open>
  Claim C1, as the code has it. For every server host, item id, time range and width
  and height, \<open>generate_graph_url\<close> returns \<open>https://<host>/chart.php?\<close> followed by the
  query string; splitting the query string at \<open>&\<close> gives exactly the eight parameters
  \<open>from\<close>, \<open>to\<close>, \<open>itemids[0]\<close>, \<open>type\<close>, \<open>profileIdx\<close>, \<open>profileIdx2\<close>, \<open>width\<close>,
  \<open>height\<close> in this order, each value percent-encoded on its own: \<open>type\<close> is \<open>0\<close>,
  \<open>profileIdx\<close> is the literal \<open>web.item.graph.filter\<close>, \<open>profileIdx2\<close> is the item id,
  and \<open>from\<close> and \<open>to\<close> are the timestamps formatted by \<open>%Y-%m-%d %H:%M:%S\<close>: the year
  in decimal, then month, day, hour, minute and second with two digits each. For a year
  from 1000 to 9999 this is the form \<open>YYYY-MM-DD HH:MM:SS\<close> of 19 characters.
\<close>

theorem generate_graph_url_shape:
  "generate_graph_url zabbix_host st et item_id width height =
     ''https://'' @ zabbix_host @ ''/chart.php?'' @ query_string st et item_id width height
   \<and> str_split CHR ''&'' (query_string st et item_id width height) =
     [''from='' @ quote (strftime st ''%Y-%m-%d %H:%M:%S''),
      ''to='' @ quote (strftime et ''%Y-%m-%d %H:%M:%S''),
      ''itemids[0]='' @ quote item_id,
      ''type=0'',
      ''profileIdx=web.item.graph.filter'',
      ''profileIdx2='' @ quote item_id,
      ''width='' @ quote (str_int width),
      ''height='' @ quote (str_int height)]
   \<and> query_string st et item_id width height =
     ''from='' @ quote (strftime st ''%Y-%m-%d %H:%M:%S'') @
     ''&to='' @ quote (strftime et ''%Y-%m-%d %H:%M:%S'') @
     ''&itemids[0]='' @ quote item_id @
     ''&type=0'' @
     ''&profileIdx=web.item.graph.filter'' @
     ''&profileIdx2='' @ quote item_id @
     ''&width='' @ quote (str_int width) @
     ''&height='' @ quote (str_int height)
   \<and> (\<forall>t. strftime t ''%Y-%m-%d %H:%M:%S'' =
          str_nat (year t) @ ''-'' @ zfill 2 (str_nat (month t)) @ ''-'' @
          zfill 2 (str_nat (day t)) @ '' '' @ zfill 2 (str_nat (hour t)) @ '':'' @
          zfill 2 (str_nat (minute t)) @ '':'' @ zfill 2 (str_nat (second t)))
   \<and> (\<forall>t. 1000 \<le> year t \<and> year t < 10000 \<and> month t < 100 \<and> day t < 100 \<and> hour t < 100 \<and>
            minute t < 100 \<and> second t < 100 \<longrightarrow>
          length (strftime t ''%Y-%m-%d %H:%M:%S'') = 19 \<and>
          length (str_nat (year t)) = 4 \<and> length (zfill 2 (str_nat (month t))) = 2 \<and>
          length (zfill 2 (str_nat (day t))) = 2 \<and> length (zfill 2 (str_nat (hour t))) = 2 \<and>
          length (zfill 2 (str_nat (minute t))) = 2 \<and> length (zfill 2 (str_nat (second t))) = 2)"
proof -
  have len: "length (strftime t ''%Y-%m-%d %H:%M:%S'') = 19 \<and>
          length (str_nat (year t)) = 4 \<and> length (zfill 2 (str_nat (month t))) = 2 \<and>
          length (zfill 2 (str_nat (day t))) = 2 \<and> length (zfill 2 (str_nat (hour t))) = 2 \<and>
          length (zfill 2 (str_nat (minute t))) = 2 \<and> length (zfill 2 (str_nat (second t))) = 2"
    if "1000 \<le> year t \<and> year t < 10000 \<and> month t < 100 \<and> day t < 100 \<and> hour t < 100 \<and>
        minute t < 100 \<and> second t < 100" for t
    using that length_str_nat_year [of "year t"] length_zfill_str_nat [of 2 "month t"]
      length_zfill_str_nat [of 2 "day t"] length_zfill_str_nat [of 2 "hour t"]
      length_zfill_str_nat [of 2 "minute t"] length_zfill_str_nat [of 2 "second t"]
    unfolding strftime_url_format by simp
  have url: "generate_graph_url zabbix_host st et item_id width height =
     ''https://'' @ zabbix_host @ ''/chart.php?'' @ query_string st et item_id width height"
    by (simp add: generate_graph_url_def)
  have fmt: "\<forall>t. strftime t ''%Y-%m-%d %H:%M:%S'' =
          str_nat (year t) @ ''-'' @ zfill 2 (str_nat (month t)) @ ''-'' @
          zfill 2 (str_nat (day t)) @ '' '' @ zfill 2 (str_nat (hour t)) @ '':'' @
          zfill 2 (str_nat (minute t)) @ '':'' @ zfill 2 (str_nat (second t))"
    using strftime_url_format by blast
  have lens: "\<forall>t. 1000 \<le> year t \<and> year t < 10000 \<and> month t < 100 \<and> day t < 100 \<and> hour t < 100 \<and>
            minute t < 100 \<and> second t < 100 \<longrightarrow>
          length (strftime t ''%Y-%m-%d %H:%M:%S'') = 19 \<and>
          length (str_nat (year t)) = 4 \<and> length (zfill 2 (str_nat (month t))) = 2 \<and>
          length (zfill 2 (str_nat (day t))) = 2 \<and> length (zfill 2 (str_nat (hour t))) = 2 \<and>
          length (zfill 2 (str_nat (minute t))) = 2 \<and> length (zfill 2 (str_nat (second t))) = 2"
    using len by blast
  show ?thesis
    apply (intro conjI)
        apply (rule url)
       apply (rule query_string_split)
      apply (rule query_string_unfold)
     apply (rule fmt)
    apply (rule lens)
    done
qed

lemma str_nat_values:
  "str_nat 0 = ''0''" "str_nat 1 = ''1''" "str_nat (Suc 0) = ''1''" "str_nat 2 = ''2''"
  "str_nat 3 = ''3''"
  "str_nat 200 = ''200''" "str_nat 1920 = ''1920''" "str_nat 2024 = ''2024''"
  by (simp_all add: str_nat.simps digit_char_def decimal_digits_def)

lemma scenario_times:
  "strftime (start_time scenario_cfg) ''%Y-%m-%d %H:%M:%S'' = ''2024-01-01 00:00:00''"
  "strftime (end_time scenario_cfg) ''%Y-%m-%d %H:%M:%S'' = ''2024-01-02 00:00:00''"
  "strftime (start_time scenario_cfg) ''%Y-%m-%d_%H%M%S'' = ''2024-01-01_000000''"
  "strftime (end_time scenario_cfg) ''%Y-%m-%d_%H%M%S'' = ''2024-01-02_000000''"
  by (simp_all add: scenario_cfg_def strftime.simps directive_def str_nat_values zfill_def)

lemma quote_examples:
  "quote ''2024-01-01 00:00:00'' = ''2024-01-01%2000%3A00%3A00''"
  "quote ''2024-01-02 00:00:00'' = ''2024-01-02%2000%3A00%3A00''"
  "quote ''1'' = ''1''" "quote ''2'' = ''2''"
  by (simp_all add: quote_def quote_byte_def safe_char_def ALWAYS_SAFE_def hex_digit_def hex_digits_def)

lemma str_int_values: "str_int 1920 = ''1920''" "str_int 200 = ''200''"
  by (simp_all add: str_int_def str_nat_values)

lemma quote_str_int_values: "quote (str_int 1920) = ''1920''" "quote (str_int 200) = ''200''"
  using quote_str_int [of 1920] quote_str_int [of 200] by (simp_all only: str_int_values)

lemma scenario_url:
  "generate_graph_url ''zbx'' (start_time scenario_cfg) (end_time scenario_cfg) ''1'' 1920 200 =
     ''https://zbx/chart.php?from=2024-01-01%2000%3A00%3A00&to=2024-01-02%2000%3A00%3A00&itemids[0]=1&type=0&profileIdx=web.item.graph.filter&profileIdx2=1&width=1920&height=200''"
  by (simp add: generate_graph_url_def query_string_unfold scenario_times quote_examples
      quote_str_int_values)

theorem generate_graph_url_shape_witness:
  "1000 \<le> year (start_time scenario_cfg) \<and>
   year (start_time scenario_cfg) < 10000 \<and> month (start_time scenario_cfg) < 100 \<and>
   day (start_time scenario_cfg) < 100 \<and> hour (start_time scenario_cfg) < 100 \<and>
   minute (start_time scenario_cfg) < 100 \<and> second (start_time scenario_cfg) < 100 \<and>
   length (strftime (start_time scenario_cfg) ''%Y-%m-%d %H:%M:%S'') = 19 \<and>
   str_split CHR ''&''
     (query_string (start_time scenario_cfg) (end_time scenario_cfg) ''1'' 1920 200) =
     [''from=2024-01-01%2000%3A00%3A00'', ''to=2024-01-02%2000%3A00%3A00'', ''itemids[0]=1'',
      ''type=0'', ''profileIdx=web.item.graph.filter'', ''profileIdx2=1'', ''width=1920'',
      ''height=200''] \<and>
   generate_graph_url ''zbx'' (start_time scenario_cfg) (end_time scenario_cfg) ''1'' 1920 200 =
     ''https://zbx/chart.php?from=2024-01-01%2000%3A00%3A00&to=2024-01-02%2000%3A00%3A00&itemids[0]=1&type=0&profileIdx=web.item.graph.filter&profileIdx2=1&width=1920&height=200''"
proof -
  have t: "1000 \<le> year (start_time scenario_cfg) \<and>
     year (start_time scenario_cfg) < 10000 \<and> month (start_time scenario_cfg) < 100 \<and>
     day (start_time scenario_cfg) < 100 \<and> hour (start_time scenario_cfg) < 100 \<and>
     minute (start_time scenario_cfg) < 100 \<and> second (start_time scenario_cfg) < 100"
    by (simp add: scenario_cfg_def)
  note shape = generate_graph_url_shape [of "''zbx''" "start_time scenario_cfg"
      "end_time scenario_cfg" "''1''" 1920 200]
  from shape t have "length (strftime (start_time scenario_cfg) ''%Y-%m-%d %H:%M:%S'') = 19"
    by blast
  moreover from shape have "str_split CHR ''&''
     (query_string (start_time scenario_cfg) (end_time scenario_cfg) ''1'' 1920 200) =
     [''from=2024-01-01%2000%3A00%3A00'', ''to=2024-01-02%2000%3A00%3A00'', ''itemids[0]=1'',
      ''type=0'', ''profileIdx=web.item.graph.filter'', ''profileIdx2=1'', ''width=1920'',
      ''height=200'']"
    by (simp only: scenario_times quote_examples quote_str_int_values) simp
  ultimately show ?thesis using t scenario_url by blast
qed

text \<open>
  Claim C1 as stated fails for a year below 1000. The configured start
  \<open>0999-01-01 00:00:00\<close> is parsed to the year 999 and printed without the leading zero:
  the \<open>from\<close> parameter has 18 characters before encoding and is not of the form
  \<open>YYYY-MM-DD HH:MM:SS\<close>.
\<close>

theorem from_parameter_of_year_999:
  "year (start_time early_cfg) = 999 \<and>
   strftime (start_time early_cfg) ''%Y-%m-%d %H:%M:%S'' = ''999-01-01 00:00:00'' \<and>
   length (strftime (start_time early_cfg) ''%Y-%m-%d %H:%M:%S'') = 18 \<and>
   length (strftime (start_time early_cfg) ''%Y-%m-%d %H:%M:%S'') \<noteq> 19 \<and>
   generate_graph_url ''zbx'' (start_time early_cfg) (end_time early_cfg) ''1'' 1920 200 =
     ''https://zbx/chart.php?from=999-01-01%2000%3A00%3A00&to=2024-01-02%2000%3A00%3A00&itemids[0]=1&type=0&profileIdx=web.item.graph.filter&profileIdx2=1&width=1920&height=200''"
proof -
  have y: "year (start_time early_cfg) = 999" by (simp add: early_cfg_def)
  have f: "strftime (start_time early_cfg) ''%Y-%m-%d %H:%M:%S'' = ''999-01-01 00:00:00''"
    by code_simp
  have u: "generate_graph_url ''zbx'' (start_time early_cfg) (end_time early_cfg) ''1'' 1920 200 =
     ''https://zbx/chart.php?from=999-01-01%2000%3A00%3A00&to=2024-01-02%2000%3A00%3A00&itemids[0]=1&type=0&profileIdx=web.item.graph.filter&profileIdx2=1&width=1920&height=200''"
    by code_simp
  from f have "length (strftime (start_time early_cfg) ''%Y-%m-%d %H:%M:%S'') = 18" by simp
  with y f u show ?thesis by simp
qed

section \<open>The world under the primitive effects\<close>

lemma emit_simps [simp]:
  "files (emit e w) = files w"
  "dirs (emit e w) = dirs w"
  "events (emit e w) = events w @ [e]"
  by (simp_all add: emit_def)

lemma path_exists_emit [simp]: "path_exists (emit e w) p = path_exists w p"
  by (simp add: path_exists_def)

lemma makedirs_simps [simp]:
  "files (makedirs d w) = files w"
  "dirs (makedirs d w) = insert d (dirs w)"
  "events (makedirs d w) = events w @ [Make_dirs d]"
  by (simp_all add: makedirs_def)

lemma write_file_simps [simp]:
  "files (write_file p content w) = (files w)(p \<mapsto> content)"
  "dirs (write_file p content w) = dirs w"
  "events (write_file p content w) = events w @ [Write_file p content]"
  by (simp_all add: write_file_def)

lemma write_partial_simps [simp]:
  "files (write_partial p part w) = (files w)(p \<mapsto> part)"
  "dirs (write_partial p part w) = dirs w"
  "events (write_partial p part w) = events w @ [Partial_write p part]"
  by (simp_all add: write_partial_def)

lemma image_requests_emit [simp]:
  "image_requests (emit e w) = image_requests w + (if is_image_request e then 1 else 0)"
  by (simp add: image_requests_def)

lemma image_requests_write_file [simp]:
  "image_requests (write_file p content w) = image_requests w"
  by (simp add: image_requests_def)

lemma image_requests_write_partial [simp]:
  "image_requests (write_partial p part w) = image_requests w"
  by (simp add: image_requests_def)

lemma writes_to_write_partial [simp]:
  "writes_to p (write_partial q part w) = writes_to p w"
  by (simp add: writes_to_def)

lemma writes_to_emit [simp]:
  "writes_to p (emit e w) = writes_to p w + (if written_path e = Some p then 1 else 0)"
  by (simp add: writes_to_def)

lemma writes_to_write_file [simp]:
  "writes_to p (write_file q content w) = writes_to p w + (if q = p then 1 else 0)"
  by (simp add: writes_to_def)

section \<open>The retry loop\<close>




declare attempt_loop.simps(2) [simp del]












text \<open>
  When the file is opened and the write then fails, the attempt is consumed as well, and
  the file is left behind with what had been written: here the download fails after its
  three attempts and an empty file exists at the path.
\<close>

lemma truncated_file_left:
  "fst (download_image truncating_env ''u'' ''f.png'' [] 3 fresh_world) = False \<and>
   image_requests (snd (download_image truncating_env ''u'' ''f.png'' [] 3 fresh_world)) = 3 \<and>
   files (snd (download_image truncating_env ''u'' ''f.png'' [] 3 fresh_world)) ''f.png'' = Some [] \<and>
   writes_to ''f.png'' (snd (download_image truncating_env ''u'' ''f.png'' [] 3 fresh_world)) = 0 \<and>
   path_exists (snd (download_image truncating_env ''u'' ''f.png'' [] 3 fresh_world)) ''f.png''"
proof -
  have "fst (download_image truncating_env ''u'' ''f.png'' [] 3 fresh_world) = False"
    by code_simp
  moreover have "image_requests (snd (download_image truncating_env ''u'' ''f.png'' [] 3 fresh_world)) = 3"
    by code_simp
  moreover have f: "files (snd (download_image truncating_env ''u'' ''f.png'' [] 3 fresh_world)) ''f.png'' = Some []"
    by code_simp
  moreover have "writes_to ''f.png'' (snd (download_image truncating_env ''u'' ''f.png'' [] 3 fresh_world)) = 0"
    by code_simp
  moreover from f have "path_exists (snd (download_image truncating_env ''u'' ''f.png'' [] 3 fresh_world)) ''f.png''"
    by (simp add: path_exists_def)
  ultimately show ?thesis by blast
qed

section \<open>Authentication\<close>

text \<open>
  Claim C3. When the login request raises, or is answered with a status from 400 to
  599 so that \<open>raise_for_status\<close> raises, \<open>main\<close> returns with the world changed by two
  events only, the login request and the printed cause: no queue is built, no request
  goes to the API or to the image endpoint, no directory is made and no file is written.
\<close>

theorem main_stops_when_login_fails:
  "(login_post env (login_url cfg) (login_data cfg) = Raises \<longrightarrow>
      main cfg env w =
        (Inr (), w\<lparr>events := events w @
           [Login_request (login_url cfg) (login_data cfg), Print (Log_auth_failed RequestException)]\<rparr>)) \<and>
   (login_post env (login_url cfg) (login_data cfg) = Response status cookie_dict \<and>
    400 \<le> status \<and> status < 600 \<longrightarrow>
      main cfg env w =
        (Inr (), w\<lparr>events := events w @
           [Login_request (login_url cfg) (login_data cfg), Print (Log_auth_http_error HTTPError)]\<rparr>))"
  by (simp add: main_def get_auth_cookies_def raise_for_status_def emit_def)

theorem main_stops_when_login_fails_witness:
  "login_post unreachable_env (login_url scenario_cfg) (login_data scenario_cfg) = Raises \<and>
   main scenario_cfg unreachable_env fresh_world =
     (Inr (), fresh_world\<lparr>events :=
        [Login_request (login_url scenario_cfg) (login_data scenario_cfg),
         Print (Log_auth_failed RequestException)]\<rparr>) \<and>
   login_post rejecting_env (login_url scenario_cfg) (login_data scenario_cfg) = Response 401 [] \<and>
   main scenario_cfg rejecting_env fresh_world =
     (Inr (), fresh_world\<lparr>events :=
        [Login_request (login_url scenario_cfg) (login_data scenario_cfg),
         Print (Log_auth_http_error HTTPError)]\<rparr>)"
  using main_stops_when_login_fails [where env = unreachable_env and cfg = scenario_cfg
      and w = fresh_world]
    main_stops_when_login_fails [where env = rejecting_env and cfg = scenario_cfg
      and status = 401 and cookie_dict = "[]" and w = fresh_world]
  by (simp add: unreachable_env_def rejecting_env_def fresh_world_def)

section \<open>The cookies play no part in the queue\<close>

text \<open>
  Claim C10. \<open>create_download_queue\<close> does not read its \<open>cookies\<close> argument: for any two
  cookie values, the same configuration, the same answers of the API and the same world,
  the queue (or the exception) and the resulting world, with every request sent, are the
  same. The API requests carry the bearer token only.
\<close>

theorem create_download_queue_ignores_cookies:
  "create_download_queue cfg env cookies w = create_download_queue cfg env cookies' w"
  by (simp add: create_download_queue_def)

section \<open>The loop over the items\<close>


lemma update_new_key: "k \<notin> fst ` set q \<Longrightarrow> AList.update k v q = q @ [(k, v)]"
  by (induction q) auto

lemma update_mem: "(k, v) \<in> set (AList.update k v q)"
  by (induction q) auto

lemma path_exists_mono:
  "files w' = files w \<Longrightarrow> dirs w \<subseteq> dirs w' \<Longrightarrow> path_exists w p \<Longrightarrow> path_exists w' p"
  by (auto simp: path_exists_def)

lemma item_loop_Cons:
  assumes "getitem item ''itemid'' = Inr i" and "getitem item ''name'' = Inr n"
  shows "item_loop cfg h d (item # items) q w =
     (if path_exists w (os_path_join d (item_filename cfg h (sanitize_filename n) i))
      then item_loop cfg h d items q
             (emit (Print (Log_skipping (os_path_join d (item_filename cfg h (sanitize_filename n) i)))) w)
      else item_loop cfg h d items
             (AList.update (item_url cfg i)
                (os_path_join d (item_filename cfg h (sanitize_filename n) i)) q) w)"
  using assms by (simp add: item_url_def)

lemma item_loop_raises:
  "getitem item ''itemid'' = Inl e \<Longrightarrow> item_loop cfg h d (item # items) q w = (Inl e, w)"
  "getitem item ''itemid'' = Inr i \<Longrightarrow> getitem item ''name'' = Inl e \<Longrightarrow>
     item_loop cfg h d (item # items) q w = (Inl e, w)"
  by simp_all

lemma getitem_cases:
  obtains (no_id) e where "getitem item ''itemid'' = Inl e"
  | (no_name) i e where "getitem item ''itemid'' = Inr i" "getitem item ''name'' = Inl e"
  | (both) i n where "getitem item ''itemid'' = Inr i" "getitem item ''name'' = Inr n"
  by (cases "getitem item ''itemid''"; cases "getitem item ''name''") auto

declare item_loop.simps(2) [simp del]

lemma item_loop_world:
  "files (snd (item_loop cfg h d items q w)) = files w \<and>
   dirs (snd (item_loop cfg h d items q w)) = dirs w"
proof (induction items arbitrary: q w)
  case Nil
  show ?case by simp
next
  case (Cons item items)
  show ?case
  proof (cases item rule: getitem_cases)
    case (no_id e)
    then show ?thesis by (simp add: item_loop_raises)
  next
    case (no_name i e)
    then show ?thesis by (simp add: item_loop_raises)
  next
    case (both i n)
    then show ?thesis by (simp add: item_loop_Cons Cons.IH)
  qed
qed

lemma item_loop_keys_mono:
  "item_loop cfg h d items q w = (Inr q', w') \<Longrightarrow> fst ` set q \<subseteq> fst ` set q'"
proof (induction items arbitrary: q w)
  case Nil
  then show ?case by simp
next
  case (Cons item items)
  show ?case
  proof (cases item rule: getitem_cases)
    case (no_id e)
    with Cons.prems show ?thesis by (simp add: item_loop_raises)
  next
    case (no_name i e)
    with Cons.prems show ?thesis by (simp add: item_loop_raises)
  next
    case (both i n)
    let ?p = "os_path_join d (item_filename cfg h (sanitize_filename n) i)"
    show ?thesis
    proof (cases "path_exists w ?p")
      case True
      with Cons.prems both have "item_loop cfg h d items q (emit (Print (Log_skipping ?p)) w) = (Inr q', w')"
        by (simp add: item_loop_Cons)
      then show ?thesis by (rule Cons.IH)
    next
      case False
      with Cons.prems both have "item_loop cfg h d items (AList.update (item_url cfg i) ?p q) w = (Inr q', w')"
        by (simp add: item_loop_Cons)
      then have "fst ` set (AList.update (item_url cfg i) ?p q) \<subseteq> fst ` set q'" by (rule Cons.IH)
      then show ?thesis by (auto simp: dom_update)
    qed
  qed
qed

lemma item_loop_complete:
  assumes "item_loop cfg h d items q w = (Inr q', w')"
    and "item \<in> set items"
    and "getitem item ''itemid'' = Inr i" and "getitem item ''name'' = Inr n"
  shows "path_exists w (os_path_join d (item_filename cfg h (sanitize_filename n) i)) \<or>
         item_url cfg i \<in> fst ` set q'"
  using assms(1,2)
proof (induction items arbitrary: q w)
  case Nil
  then show ?case by simp
next
  case (Cons x items)
  show ?case
  proof (cases x rule: getitem_cases)
    case (no_id e)
    with Cons.prems show ?thesis by (simp add: item_loop_raises)
  next
    case (no_name j e)
    with Cons.prems show ?thesis by (simp add: item_loop_raises)
  next
    case (both j m)
    let ?p = "os_path_join d (item_filename cfg h (sanitize_filename m) j)"
    show ?thesis
    proof (cases "path_exists w ?p")
      case True
      with Cons.prems both have run: "item_loop cfg h d items q (emit (Print (Log_skipping ?p)) w) = (Inr q', w')"
        by (simp add: item_loop_Cons)
      show ?thesis
      proof (cases "item = x")
        case same: True
        with both assms(3,4) have "j = i" "m = n" by simp_all
        with True show ?thesis by simp
      next
        case False
        with Cons.prems have "item \<in> set items" by simp
        from Cons.IH [OF run this] show ?thesis by simp
      qed
    next
      case False
      with Cons.prems both have run: "item_loop cfg h d items (AList.update (item_url cfg j) ?p q) w = (Inr q', w')"
        by (simp add: item_loop_Cons)
      show ?thesis
      proof (cases "item = x")
        case same: True
        with both assms(3,4) have "j = i" by simp
        moreover have "item_url cfg j \<in> fst ` set (AList.update (item_url cfg j) ?p q)"
          by (simp add: dom_update)
        ultimately show ?thesis using item_loop_keys_mono [OF run] by blast
      next
        case False
        with Cons.prems have "item \<in> set items" by simp
        from Cons.IH [OF run this] show ?thesis by simp
      qed
    qed
  qed
qed




section \<open>The loop over the hosts\<close>

lemma getitem_Inl: "getitem d k = Inl e \<Longrightarrow> e = KeyError"
  by (simp add: getitem_def split: option.splits)

lemma resolve_host_eq:
  "resolve_host cfg env h w =
     (case api_result cfg env ''host.get'' h of
        Inl e \<Rightarrow> (Inl e, emit (Api_request (ZABBIX_API_URL cfg) (ZABBIX_API_TOKEN cfg) ''host.get'' h) w)
      | Inr [] \<Rightarrow> (Inr None, emit (Print (Log_no_host h))
                     (emit (Api_request (ZABBIX_API_URL cfg) (ZABBIX_API_TOKEN cfg) ''host.get'' h) w))
      | Inr (first # rest) \<Rightarrow>
          (case getitem first ''hostid'' of
             Inl e \<Rightarrow> (Inl e, emit (Api_request (ZABBIX_API_URL cfg) (ZABBIX_API_TOKEN cfg) ''host.get'' h) w)
           | Inr host_id \<Rightarrow> (Inr (Some host_id),
               emit (Api_request (ZABBIX_API_URL cfg) (ZABBIX_API_TOKEN cfg) ''host.get'' h) w)))"
  by (simp add: resolve_host_def get_host_id_def json_rpc_def split: sum.splits list.splits)

declare host_loop.simps(2) [simp del]

lemma host_loop_Cons_raises:
  assumes "host_raises cfg env h = Some e"
  shows "\<exists>w1. host_loop cfg env (h # hs) q w = (Inl e, w1) \<and> files w1 = files w \<and>
           dirs w \<subseteq> dirs w1 \<and> dirs w1 \<subseteq> insert (os_path_join (getcwd env) h) (dirs w)"
proof (cases "api_result cfg env ''host.get'' h")
  case (Inl e')
  with assms show ?thesis
    by (auto simp: host_raises_def host_loop.simps(2) resolve_host_eq split: if_splits)
next
  case (Inr host_info)
  show ?thesis
  proof (cases host_info)
    case Nil
    with Inr assms show ?thesis by (simp add: host_raises_def)
  next
    case (Cons first rest)
    show ?thesis
    proof (cases "getitem first ''hostid''")
      case (Inl e')
      then have "e' = KeyError" by (rule getitem_Inl)
      with Inl Inr Cons assms show ?thesis
        by (simp add: host_raises_def caught_host_id_def)
    next
      case hid: (Inr host_id)
      show ?thesis
      proof (cases "api_result cfg env ''item.get'' host_id")
        case (Inl e')
        with hid Inr Cons assms show ?thesis
          by (auto simp: host_raises_def host_loop.simps(2) resolve_host_eq get_item_list_def
              json_rpc_def split: if_splits)
      next
        case (Inr items)
        with hid \<open>api_result cfg env ''host.get'' h = Inr host_info\<close> Cons assms show ?thesis
          by (simp add: host_raises_def)
      qed
    qed
  qed
qed

lemma host_loop_Cons_items:
  assumes "host_raises cfg env h = None"
  shows "\<exists>w1. files w1 = files w \<and> dirs w \<subseteq> dirs w1 \<and>
           dirs w1 \<subseteq> insert (os_path_join (getcwd env) h) (dirs w) \<and>
           host_loop cfg env (h # hs) q w =
             (case item_loop cfg h (os_path_join (getcwd env) h) (host_items cfg env h) q w1 of
                (Inl e, w2) \<Rightarrow> (Inl e, w2)
              | (Inr q', w2) \<Rightarrow> host_loop cfg env hs q' w2)"
proof (cases "api_result cfg env ''host.get'' h")
  case (Inl e')
  with assms have c: "caught_host_id e'" by (simp add: host_raises_def split: if_splits)
  let ?w1 = "emit (Print (Log_host_id_failed h e'))
     (emit (Api_request (ZABBIX_API_URL cfg) (ZABBIX_API_TOKEN cfg) ''host.get'' h)
        (emit (Print (Log_processing h)) w))"
  from Inl c have "host_loop cfg env (h # hs) q w = host_loop cfg env hs q ?w1"
    by (simp add: host_loop.simps(2) resolve_host_eq)
  with Inl show ?thesis
    by (intro exI [of _ ?w1]) (auto simp: host_items_def)
next
  case (Inr host_info)
  show ?thesis
  proof (cases host_info)
    case Nil
    let ?w1 = "emit (Print (Log_no_host h))
     (emit (Api_request (ZABBIX_API_URL cfg) (ZABBIX_API_TOKEN cfg) ''host.get'' h)
        (emit (Print (Log_processing h)) w))"
    from Inr Nil have "host_loop cfg env (h # hs) q w = host_loop cfg env hs q ?w1"
      by (simp add: host_loop.simps(2) resolve_host_eq)
    with Inr Nil show ?thesis
      by (intro exI [of _ ?w1]) (auto simp: host_items_def)
  next
    case (Cons first rest)
    show ?thesis
    proof (cases "getitem first ''hostid''")
      case (Inl e')
      then have "e' = KeyError" by (rule getitem_Inl)
      then have c: "caught_host_id e'" by (simp add: caught_host_id_def)
      let ?w1 = "emit (Print (Log_host_id_failed h e'))
         (emit (Api_request (ZABBIX_API_URL cfg) (ZABBIX_API_TOKEN cfg) ''host.get'' h)
            (emit (Print (Log_processing h)) w))"
      from Inr Cons Inl c have "host_loop cfg env (h # hs) q w = host_loop cfg env hs q ?w1"
        by (simp add: host_loop.simps(2) resolve_host_eq)
      with Inr Cons Inl show ?thesis
        by (intro exI [of _ ?w1]) (auto simp: host_items_def)
    next
      case hid: (Inr host_id)
      let ?w3 = "emit (Api_request (ZABBIX_API_URL cfg) (ZABBIX_API_TOKEN cfg) ''item.get'' host_id)
         (makedirs (os_path_join (getcwd env) h)
            (emit (Api_request (ZABBIX_API_URL cfg) (ZABBIX_API_TOKEN cfg) ''host.get'' h)
               (emit (Print (Log_processing h)) w)))"
      show ?thesis
      proof (cases "api_result cfg env ''item.get'' host_id")
        case (Inl e')
        with hid Inr Cons assms have c: "caught_items e'"
          by (simp add: host_raises_def split: if_splits)
        let ?w1 = "emit (Print (Log_items_failed h e')) ?w3"
        from Inr Cons hid Inl c have "host_loop cfg env (h # hs) q w = host_loop cfg env hs q ?w1"
          by (simp add: host_loop.simps(2) resolve_host_eq get_item_list_def json_rpc_def Let_def)
        with Inr Cons hid Inl show ?thesis
          by (intro exI [of _ ?w1]) (auto simp: host_items_def)
      next
        case items: (Inr items)
        from Inr Cons hid items have "host_loop cfg env (h # hs) q w =
            (case item_loop cfg h (os_path_join (getcwd env) h) items q ?w3 of
                (Inl e, w2) \<Rightarrow> (Inl e, w2)
              | (Inr q', w2) \<Rightarrow> host_loop cfg env hs q' w2)"
          by (simp add: host_loop.simps(2) resolve_host_eq get_item_list_def json_rpc_def Let_def)
        with Inr Cons hid items show ?thesis
          by (intro exI [of _ ?w3]) (auto simp: host_items_def)
      qed
    qed
  qed
qed



lemma host_loop_world:
  "host_loop cfg env hosts q w = (r, w') \<Longrightarrow> files w' = files w \<and> dirs w \<subseteq> dirs w'"
proof (induction hosts arbitrary: q w)
  case Nil
  then show ?case by simp
next
  case (Cons h hs)
  show ?case
  proof (cases "host_raises cfg env h")
    case (Some e)
    from host_loop_Cons_raises [OF Some, of hs q w] Cons.prems show ?thesis
      by auto
  next
    case None
    from host_loop_Cons_items [OF None, of w hs q] obtain w1 where
      w1: "files w1 = files w" "dirs w \<subseteq> dirs w1"
      and step: "host_loop cfg env (h # hs) q w =
             (case item_loop cfg h (os_path_join (getcwd env) h) (host_items cfg env h) q w1 of
                (Inl e, w2) \<Rightarrow> (Inl e, w2)
              | (Inr q', w2) \<Rightarrow> host_loop cfg env hs q' w2)"
      by blast
    obtain ri w2 where il: "item_loop cfg h (os_path_join (getcwd env) h) (host_items cfg env h) q w1 = (ri, w2)"
      by (cases "item_loop cfg h (os_path_join (getcwd env) h) (host_items cfg env h) q w1")
    from item_loop_world [of cfg h "os_path_join (getcwd env) h" "host_items cfg env h" q w1] il
    have w2: "files w2 = files w1" "dirs w2 = dirs w1" by simp_all
    show ?thesis
    proof (cases ri)
      case (Inl e)
      with step il Cons.prems have "w' = w2" by simp
      with w1 w2 show ?thesis by simp
    next
      case (Inr q2)
      with step il Cons.prems have "host_loop cfg env hs q2 w2 = (r, w')" by simp
      from Cons.IH [OF this] w1 w2 show ?thesis by auto
    qed
  qed
qed

lemma host_loop_keys_mono:
  "host_loop cfg env hosts q w = (Inr q', w') \<Longrightarrow> fst ` set q \<subseteq> fst ` set q'"
proof (induction hosts arbitrary: q w)
  case Nil
  then show ?case by simp
next
  case (Cons h hs)
  show ?case
  proof (cases "host_raises cfg env h")
    case (Some e)
    from host_loop_Cons_raises [OF Some, of hs q w] Cons.prems show ?thesis by auto
  next
    case None
    from host_loop_Cons_items [OF None, of w hs q] obtain w1 where
      step: "host_loop cfg env (h # hs) q w =
             (case item_loop cfg h (os_path_join (getcwd env) h) (host_items cfg env h) q w1 of
                (Inl e, w2) \<Rightarrow> (Inl e, w2)
              | (Inr q', w2) \<Rightarrow> host_loop cfg env hs q' w2)"
      by blast
    obtain ri w2 where il: "item_loop cfg h (os_path_join (getcwd env) h) (host_items cfg env h) q w1 = (ri, w2)"
      by (cases "item_loop cfg h (os_path_join (getcwd env) h) (host_items cfg env h) q w1")
    show ?thesis
    proof (cases ri)
      case (Inl e)
      with step il Cons.prems show ?thesis by simp
    next
      case (Inr q2)
      with step il Cons.prems have "host_loop cfg env hs q2 w2 = (Inr q', w')" by simp
      from Cons.IH [OF this] item_loop_keys_mono [of cfg h _ _ q w1 q2 w2] il Inr
      show ?thesis by blast
    qed
  qed
qed

lemma host_loop_complete:
  assumes "host_loop cfg env hosts q w = (Inr q', w')"
    and "h \<in> set hosts" and "item \<in> set (host_items cfg env h)"
    and "getitem item ''itemid'' = Inr i" and "getitem item ''name'' = Inr n"
  shows "path_exists w' (item_file_path cfg env h n i) \<or> item_url cfg i \<in> fst ` set q'"
  using assms(1,2)
proof (induction hosts arbitrary: q w)
  case Nil
  then show ?case by simp
next
  case (Cons x hs)
  show ?case
  proof (cases "host_raises cfg env x")
    case (Some e)
    from host_loop_Cons_raises [OF Some, of hs q w] Cons.prems show ?thesis by auto
  next
    case None
    from host_loop_Cons_items [OF None, of w hs q] obtain w1 where
      step: "host_loop cfg env (x # hs) q w =
             (case item_loop cfg x (os_path_join (getcwd env) x) (host_items cfg env x) q w1 of
                (Inl e, w2) \<Rightarrow> (Inl e, w2)
              | (Inr q', w2) \<Rightarrow> host_loop cfg env hs q' w2)"
      by blast
    obtain ri w2 where il: "item_loop cfg x (os_path_join (getcwd env) x) (host_items cfg env x) q w1 = (ri, w2)"
      by (cases "item_loop cfg x (os_path_join (getcwd env) x) (host_items cfg env x) q w1")
    from item_loop_world [of cfg x "os_path_join (getcwd env) x" "host_items cfg env x" q w1] il
    have w2: "files w2 = files w1" "dirs w2 = dirs w1" by simp_all
    show ?thesis
    proof (cases ri)
      case (Inl e)
      with step il Cons.prems show ?thesis by simp
    next
      case (Inr q2)
      with step il Cons.prems have rest: "host_loop cfg env hs q2 w2 = (Inr q', w')" by simp
      show ?thesis
      proof (cases "h = x")
        case True
        from il Inr have "item_loop cfg x (os_path_join (getcwd env) x) (host_items cfg env x) q w1 = (Inr q2, w2)"
          by simp
        from item_loop_complete [OF this, of item i n] assms(3,4,5) True
        have "path_exists w1 (item_file_path cfg env h n i) \<or> item_url cfg i \<in> fst ` set q2"
          by (simp add: item_file_path_def)
        then show ?thesis
        proof
          assume "path_exists w1 (item_file_path cfg env h n i)"
          then have "path_exists w2 (item_file_path cfg env h n i)"
            using w2 by (simp add: path_exists_def)
          with host_loop_world [OF rest] show ?thesis
            by (auto intro: path_exists_mono)
        next
          assume "item_url cfg i \<in> fst ` set q2"
          with host_loop_keys_mono [OF rest] show ?thesis by blast
        qed
      next
        case False
        with Cons.prems have "h \<in> set hs" by simp
        from Cons.IH [OF rest this] show ?thesis .
      qed
    qed
  qed
qed



lemma host_loop_dirs:
  "host_loop cfg env hosts q w = (r, w') \<Longrightarrow>
     dirs w' \<subseteq> dirs w \<union> os_path_join (getcwd env) ` set hosts"
proof (induction hosts arbitrary: q w)
  case Nil
  then show ?case by simp
next
  case (Cons h hs)
  show ?case
  proof (cases "host_raises cfg env h")
    case (Some e)
    from host_loop_Cons_raises [OF Some, of hs q w] Cons.prems show ?thesis
      by auto
  next
    case None
    from host_loop_Cons_items [OF None, of w hs q] obtain w1 where
      w1: "dirs w1 \<subseteq> insert (os_path_join (getcwd env) h) (dirs w)"
      and step: "host_loop cfg env (h # hs) q w =
             (case item_loop cfg h (os_path_join (getcwd env) h) (host_items cfg env h) q w1 of
                (Inl e, w2) \<Rightarrow> (Inl e, w2)
              | (Inr q', w2) \<Rightarrow> host_loop cfg env hs q' w2)"
      by blast
    obtain ri w2 where il: "item_loop cfg h (os_path_join (getcwd env) h) (host_items cfg env h) q w1 = (ri, w2)"
      by (cases "item_loop cfg h (os_path_join (getcwd env) h) (host_items cfg env h) q w1")
    from item_loop_world [of cfg h "os_path_join (getcwd env) h" "host_items cfg env h" q w1] il
    have w2: "dirs w2 = dirs w1" by simp
    show ?thesis
    proof (cases ri)
      case (Inl e)
      with step il Cons.prems have "w' = w2" by simp
      with w1 w2 show ?thesis by auto
    next
      case (Inr q2)
      with step il Cons.prems have "host_loop cfg env hs q2 w2 = (r, w')" by simp
      from Cons.IH [OF this] w1 w2 show ?thesis by auto
    qed
  qed
qed


section \<open>Queue entries\<close>






lemma create_download_queue_has_key:
  assumes "create_download_queue cfg env cookies w = (Inr q, w')"
    and "h \<in> set (HOST_LIST cfg)" and "item \<in> set (host_items cfg env h)"
    and "getitem item ''itemid'' = Inr i" and "getitem item ''name'' = Inr n"
    and "\<not> path_exists w (item_file_path cfg env h n i)"
    and "item_file_path cfg env h n i \<notin> os_path_join (getcwd env) ` set (HOST_LIST cfg)"
  shows "item_url cfg i \<in> fst ` set q"
proof -
  from assms(1) have run: "host_loop cfg env (HOST_LIST cfg) [] w = (Inr q, w')"
    by (simp add: create_download_queue_def)
  from host_loop_world [OF run] host_loop_dirs [OF run] assms(6,7)
  have "\<not> path_exists w' (item_file_path cfg env h n i)"
    by (auto simp: path_exists_def)
  with host_loop_complete [OF run assms(2,3,4,5)] show ?thesis by simp
qed


lemma item_url_inj: "item_url cfg i = item_url cfg j \<Longrightarrow> i = j"
  unfolding item_url_def by (rule generate_graph_url_inj)





section \<open>The concrete run, evaluated\<close>

lemma scenario_hosts:
  "HOST_LIST scenario_cfg = [''srv-a'', ''srv-b'']"
  "getcwd scenario_env = ''/work''"
  "getcwd two_host_env = ''/work''"
  by (simp_all add: scenario_cfg_def scenario_env_def two_host_env_def)

lemma scenario_host_items:
  "host_items scenario_cfg scenario_env ''srv-a'' =
     [[(''itemid'', ''1''), (''hostid'', ''10''), (''name'', ''CPU'')]]"
  "host_items scenario_cfg scenario_env ''srv-b'' = []"
  "host_items scenario_cfg two_host_env ''srv-a'' =
     [[(''itemid'', ''1''), (''hostid'', ''10''), (''name'', ''CPU'')]]"
  "host_items scenario_cfg two_host_env ''srv-b'' =
     [[(''itemid'', ''2''), (''hostid'', ''20''), (''name'', ''Memory'')]]"
  by code_simp+

lemma scenario_item_url:
  "item_url scenario_cfg ''1'' =
     ''https://zbx/chart.php?from=2024-01-01%2000%3A00%3A00&to=2024-01-02%2000%3A00%3A00&itemids[0]=1&type=0&profileIdx=web.item.graph.filter&profileIdx2=1&width=1920&height=200''"
  "item_url scenario_cfg ''2'' =
     ''https://zbx/chart.php?from=2024-01-01%2000%3A00%3A00&to=2024-01-02%2000%3A00%3A00&itemids[0]=2&type=0&profileIdx=web.item.graph.filter&profileIdx2=2&width=1920&height=200''"
  by code_simp+

lemma scenario_item_file_path:
  "item_file_path scenario_cfg scenario_env ''srv-a'' ''CPU'' ''1'' =
     ''/work/srv-a/srv-a_CPU_1_2024-01-01_000000_2024-01-02_000000.png''"
  "item_file_path scenario_cfg two_host_env ''srv-a'' ''CPU'' ''1'' =
     ''/work/srv-a/srv-a_CPU_1_2024-01-01_000000_2024-01-02_000000.png''"
  "item_file_path scenario_cfg two_host_env ''srv-b'' ''Memory'' ''2'' =
     ''/work/srv-b/srv-b_Memory_2_2024-01-01_000000_2024-01-02_000000.png''"
  by code_simp+

lemma scenario_getitem:
  "getitem [(''itemid'', ''1''), (''hostid'', ''10''), (''name'', ''CPU'')] ''itemid'' = Inr ''1''"
  "getitem [(''itemid'', ''1''), (''hostid'', ''10''), (''name'', ''CPU'')] ''name'' = Inr ''CPU''"
  "getitem [(''itemid'', ''2''), (''hostid'', ''20''), (''name'', ''Memory'')] ''itemid'' = Inr ''2''"
  "getitem [(''itemid'', ''2''), (''hostid'', ''20''), (''name'', ''Memory'')] ''name'' = Inr ''Memory''"
  by (simp_all add: getitem_def)

lemma scenario_queue:
  "fst (create_download_queue scenario_cfg scenario_env [] fresh_world) =
     Inr [(''https://zbx/chart.php?from=2024-01-01%2000%3A00%3A00&to=2024-01-02%2000%3A00%3A00&itemids[0]=1&type=0&profileIdx=web.item.graph.filter&profileIdx2=1&width=1920&height=200'',
           ''/work/srv-a/srv-a_CPU_1_2024-01-01_000000_2024-01-02_000000.png'')]"
  by code_simp

lemma two_host_queue:
  "fst (create_download_queue scenario_cfg two_host_env [] fresh_world) =
     Inr [(''https://zbx/chart.php?from=2024-01-01%2000%3A00%3A00&to=2024-01-02%2000%3A00%3A00&itemids[0]=1&type=0&profileIdx=web.item.graph.filter&profileIdx2=1&width=1920&height=200'',
           ''/work/srv-a/srv-a_CPU_1_2024-01-01_000000_2024-01-02_000000.png''),
          (''https://zbx/chart.php?from=2024-01-01%2000%3A00%3A00&to=2024-01-02%2000%3A00%3A00&itemids[0]=2&type=0&profileIdx=web.item.graph.filter&profileIdx2=2&width=1920&height=200'',
           ''/work/srv-b/srv-b_Memory_2_2024-01-01_000000_2024-01-02_000000.png'')]"
  by code_simp

lemma fresh_world_empty:
  "\<not> path_exists fresh_world p" "files fresh_world = Map.empty" "dirs fresh_world = {}"
  by (simp_all add: path_exists_def fresh_world_def)




section \<open>Distinct item ids, distinct entries\<close>

lemma item_loop_distinct_ids:
  assumes "map (\<lambda>item. getitem item ''itemid'') items = map Inr ids"
    and "map (\<lambda>item. getitem item ''name'') items = map Inr names"
    and "distinct ids"
    and "\<forall>(i, n)\<in>set (zip ids names).
           \<not> path_exists w (os_path_join d (item_filename cfg h (sanitize_filename n) i))"
    and "\<forall>i\<in>set ids. item_url cfg i \<notin> fst ` set q"
  shows "item_loop cfg h d items q w =
     (Inr (q @ map (\<lambda>(i, n). (item_url cfg i,
                      os_path_join d (item_filename cfg h (sanitize_filename n) i)))
                 (zip ids names)), w)"
  using assms
proof (induction items arbitrary: ids names q)
  case Nil
  then show ?case by simp
next
  case (Cons x xs)
  from Cons.prems(1) obtain i ids' where ids: "ids = i # ids'"
    "getitem x ''itemid'' = Inr i" "map (\<lambda>item. getitem item ''itemid'') xs = map Inr ids'"
    by (cases ids) auto
  from Cons.prems(2) obtain n names' where names: "names = n # names'"
    "getitem x ''name'' = Inr n" "map (\<lambda>item. getitem item ''name'') xs = map Inr names'"
    by (cases names) auto
  let ?p = "os_path_join d (item_filename cfg h (sanitize_filename n) i)"
  from Cons.prems(4) ids names have new: "\<not> path_exists w ?p" by simp
  from Cons.prems(5) ids have "item_url cfg i \<notin> fst ` set q" by simp
  then have upd: "AList.update (item_url cfg i) ?p q = q @ [(item_url cfg i, ?p)]"
    by (rule update_new_key)
  have fresh: "\<forall>j\<in>set ids'. item_url cfg j \<notin> fst ` set (q @ [(item_url cfg i, ?p)])"
  proof
    fix j assume j: "j \<in> set ids'"
    with Cons.prems(3) ids have "i \<noteq> j" by auto
    then have "item_url cfg j \<noteq> item_url cfg i" using item_url_inj by blast
    moreover from Cons.prems(5) ids j have "item_url cfg j \<notin> fst ` set q" by simp
    ultimately show "item_url cfg j \<notin> fst ` set (q @ [(item_url cfg i, ?p)])" by auto
  qed
  from Cons.prems(3) ids have d': "distinct ids'" by simp
  from Cons.prems(4) ids names have rest: "\<forall>(i, n)\<in>set (zip ids' names').
      \<not> path_exists w (os_path_join d (item_filename cfg h (sanitize_filename n) i))" by simp
  from Cons.IH [OF ids(3) names(3) d' rest fresh]
  have "item_loop cfg h d xs (q @ [(item_url cfg i, ?p)]) w =
     (Inr ((q @ [(item_url cfg i, ?p)]) @
           map (\<lambda>(i, n). (item_url cfg i,
                   os_path_join d (item_filename cfg h (sanitize_filename n) i)))
               (zip ids' names')), w)" .
  with ids names new upd show ?case by (simp add: item_loop_Cons)
qed

text \<open>
  Claim C9. For a fixed server host, time range and size, two item ids have the same
  URL only if they are equal. So the loop over items with pairwise different ids, none
  of which has its file or its URL in the queue already, appends one entry for each item,
  in order; and in a queue that a run returns, two enumerated items with different ids
  and missing files have two different keys.
\<close>

theorem distinct_ids_distinct_entries:
  "(generate_graph_url z st et ia wd ht = generate_graph_url z st et ib wd ht \<longleftrightarrow> ia = ib) \<and>
   (map (\<lambda>item. getitem item ''itemid'') items = map Inr ids \<and>
    map (\<lambda>item. getitem item ''name'') items = map Inr names \<and>
    distinct ids \<and>
    (\<forall>(i, n)\<in>set (zip ids names).
       \<not> path_exists w (os_path_join d (item_filename cfg h (sanitize_filename n) i))) \<and>
    (\<forall>i\<in>set ids. item_url cfg i \<notin> fst ` set qi) \<longrightarrow>
      item_loop cfg h d items qi w =
        (Inr (qi @ map (\<lambda>(i, n). (item_url cfg i,
                         os_path_join d (item_filename cfg h (sanitize_filename n) i)))
                    (zip ids names)), w)) \<and>
   (create_download_queue cfg env cookies w = (Inr q, w') \<and>
    ha \<in> set (HOST_LIST cfg) \<and> item_a \<in> set (host_items cfg env ha) \<and>
    getitem item_a ''itemid'' = Inr ia \<and> getitem item_a ''name'' = Inr na \<and>
    \<not> path_exists w (item_file_path cfg env ha na ia) \<and>
    item_file_path cfg env ha na ia \<notin> os_path_join (getcwd env) ` set (HOST_LIST cfg) \<and>
    hb \<in> set (HOST_LIST cfg) \<and> item_b \<in> set (host_items cfg env hb) \<and>
    getitem item_b ''itemid'' = Inr ib \<and> getitem item_b ''name'' = Inr nb \<and>
    \<not> path_exists w (item_file_path cfg env hb nb ib) \<and>
    item_file_path cfg env hb nb ib \<notin> os_path_join (getcwd env) ` set (HOST_LIST cfg) \<and>
    ia \<noteq> ib \<longrightarrow>
      item_url cfg ia \<in> fst ` set q \<and> item_url cfg ib \<in> fst ` set q \<and>
      item_url cfg ia \<noteq> item_url cfg ib)"
proof (intro conjI impI)
  show "generate_graph_url z st et ia wd ht = generate_graph_url z st et ib wd ht \<longleftrightarrow> ia = ib"
    using generate_graph_url_inj by blast
next
  assume "map (\<lambda>item. getitem item ''itemid'') items = map Inr ids \<and>
    map (\<lambda>item. getitem item ''name'') items = map Inr names \<and>
    distinct ids \<and>
    (\<forall>(i, n)\<in>set (zip ids names).
       \<not> path_exists w (os_path_join d (item_filename cfg h (sanitize_filename n) i))) \<and>
    (\<forall>i\<in>set ids. item_url cfg i \<notin> fst ` set qi)"
  then show "item_loop cfg h d items qi w =
        (Inr (qi @ map (\<lambda>(i, n). (item_url cfg i,
                         os_path_join d (item_filename cfg h (sanitize_filename n) i)))
                    (zip ids names)), w)"
    by (intro item_loop_distinct_ids) blast+
next
  assume a: "create_download_queue cfg env cookies w = (Inr q, w') \<and>
    ha \<in> set (HOST_LIST cfg) \<and> item_a \<in> set (host_items cfg env ha) \<and>
    getitem item_a ''itemid'' = Inr ia \<and> getitem item_a ''name'' = Inr na \<and>
    \<not> path_exists w (item_file_path cfg env ha na ia) \<and>
    item_file_path cfg env ha na ia \<notin> os_path_join (getcwd env) ` set (HOST_LIST cfg) \<and>
    hb \<in> set (HOST_LIST cfg) \<and> item_b \<in> set (host_items cfg env hb) \<and>
    getitem item_b ''itemid'' = Inr ib \<and> getitem item_b ''name'' = Inr nb \<and>
    \<not> path_exists w (item_file_path cfg env hb nb ib) \<and>
    item_file_path cfg env hb nb ib \<notin> os_path_join (getcwd env) ` set (HOST_LIST cfg) \<and>
    ia \<noteq> ib"
  then have run: "create_download_queue cfg env cookies w = (Inr q, w')" by blast
  from a show "item_url cfg ia \<in> fst ` set q"
    by (intro create_download_queue_has_key [OF run, of ha item_a ia na]) blast+
  from a show "item_url cfg ib \<in> fst ` set q"
    by (intro create_download_queue_has_key [OF run, of hb item_b ib nb]) blast+
  from a have "ia \<noteq> ib" by blast
  then show "item_url cfg ia \<noteq> item_url cfg ib" using item_url_inj by blast
qed

theorem distinct_ids_distinct_entries_witness:
  "fst (create_download_queue scenario_cfg two_host_env [] fresh_world) =
     Inr [(item_url scenario_cfg ''1'',
           ''/work/srv-a/srv-a_CPU_1_2024-01-01_000000_2024-01-02_000000.png''),
          (item_url scenario_cfg ''2'',
           ''/work/srv-b/srv-b_Memory_2_2024-01-01_000000_2024-01-02_000000.png'')] \<and>
   item_url scenario_cfg ''1'' \<noteq> item_url scenario_cfg ''2'' \<and>
   item_url scenario_cfg ''1''
     \<in> fst ` set (projr (fst (create_download_queue scenario_cfg two_host_env [] fresh_world))) \<and>
   item_url scenario_cfg ''2''
     \<in> fst ` set (projr (fst (create_download_queue scenario_cfg two_host_env [] fresh_world))) \<and>
   distinct [''1'', ''2''] \<and>
   item_loop scenario_cfg ''srv-a'' ''/work/srv-a''
     [[(''itemid'', ''1''), (''hostid'', ''10''), (''name'', ''CPU'')],
      [(''itemid'', ''2''), (''hostid'', ''20''), (''name'', ''Memory'')]] [] fresh_world =
     (Inr [(item_url scenario_cfg ''1'',
            os_path_join ''/work/srv-a'' (item_filename scenario_cfg ''srv-a'' (sanitize_filename ''CPU'') ''1'')),
           (item_url scenario_cfg ''2'',
            os_path_join ''/work/srv-a'' (item_filename scenario_cfg ''srv-a'' (sanitize_filename ''Memory'') ''2''))],
      fresh_world)"
proof -
  let ?item1 = "[(''itemid'', ''1''), (''hostid'', ''10''), (''name'', ''CPU'')]"
  let ?item2 = "[(''itemid'', ''2''), (''hostid'', ''20''), (''name'', ''Memory'')]"
  let ?q = "projr (fst (create_download_queue scenario_cfg two_host_env [] fresh_world))"
  let ?w' = "snd (create_download_queue scenario_cfg two_host_env [] fresh_world)"
  have q: "fst (create_download_queue scenario_cfg two_host_env [] fresh_world) = Inr ?q"
    by (simp add: two_host_queue)
  then have run: "create_download_queue scenario_cfg two_host_env [] fresh_world = (Inr ?q, ?w')"
    by (simp add: prod_eq_iff)
  have hosts: "''srv-a'' \<in> set (HOST_LIST scenario_cfg)" "''srv-b'' \<in> set (HOST_LIST scenario_cfg)"
    by (simp_all add: scenario_hosts)
  have items: "?item1 \<in> set (host_items scenario_cfg two_host_env ''srv-a'')"
    "?item2 \<in> set (host_items scenario_cfg two_host_env ''srv-b'')"
    by (simp_all add: scenario_host_items)
  have nodir: "item_file_path scenario_cfg two_host_env ''srv-a'' ''CPU'' ''1''
      \<notin> os_path_join (getcwd two_host_env) ` set (HOST_LIST scenario_cfg)"
    "item_file_path scenario_cfg two_host_env ''srv-b'' ''Memory'' ''2''
      \<notin> os_path_join (getcwd two_host_env) ` set (HOST_LIST scenario_cfg)"
    by (simp_all add: scenario_item_file_path scenario_hosts os_path_join_def)
  have ne: "''1'' \<noteq> ''2''" by simp
  note inst = distinct_ids_distinct_entries [where cfg = scenario_cfg and env = two_host_env
      and cookies = "[]" and w = fresh_world and q = ?q and w' = ?w'
      and ha = "''srv-a''" and item_a = ?item1 and ia = "''1''" and na = "''CPU''"
      and hb = "''srv-b''" and item_b = ?item2 and ib = "''2''" and nb = "''Memory''"
      and h = "''srv-a''" and d = "''/work/srv-a''" and items = "[?item1, ?item2]"
      and ids = "[''1'', ''2'']" and names = "[''CPU'', ''Memory'']" and qi = "[]"]
  from inst run hosts items nodir ne scenario_getitem fresh_world_empty(1)
  have keys: "item_url scenario_cfg ''1'' \<in> fst ` set ?q \<and>
      item_url scenario_cfg ''2'' \<in> fst ` set ?q \<and>
      item_url scenario_cfg ''1'' \<noteq> item_url scenario_cfg ''2''"
    by blast
  have pre: "map (\<lambda>item. getitem item ''itemid'') [?item1, ?item2] = map Inr [''1'', ''2''] \<and>
    map (\<lambda>item. getitem item ''name'') [?item1, ?item2] = map Inr [''CPU'', ''Memory''] \<and>
    distinct [''1'', ''2''] \<and>
    (\<forall>(i, n)\<in>set (zip [''1'', ''2''] [''CPU'', ''Memory'']).
       \<not> path_exists fresh_world
           (os_path_join ''/work/srv-a'' (item_filename scenario_cfg ''srv-a'' (sanitize_filename n) i))) \<and>
    (\<forall>i\<in>set [''1'', ''2'']. item_url scenario_cfg i \<notin> fst ` set [])"
    by (simp add: scenario_getitem fresh_world_empty)
  from inst pre have loop: "item_loop scenario_cfg ''srv-a'' ''/work/srv-a'' [?item1, ?item2] [] fresh_world =
     (Inr ([] @ map (\<lambda>(i, n). (item_url scenario_cfg i,
                 os_path_join ''/work/srv-a'' (item_filename scenario_cfg ''srv-a'' (sanitize_filename n) i)))
             (zip [''1'', ''2''] [''CPU'', ''Memory''])), fresh_world)"
    by blast
  have "fst (create_download_queue scenario_cfg two_host_env [] fresh_world) =
     Inr [(item_url scenario_cfg ''1'',
           ''/work/srv-a/srv-a_CPU_1_2024-01-01_000000_2024-01-02_000000.png''),
          (item_url scenario_cfg ''2'',
           ''/work/srv-b/srv-b_Memory_2_2024-01-01_000000_2024-01-02_000000.png'')]"
    by (simp only: two_host_queue scenario_item_url)
  with keys loop show ?thesis by simp
qed

section \<open>A listing without the result field\<close>

lemma api_result_KeyError_iff:
  "api_result cfg env method arg = Inl KeyError \<longleftrightarrow>
     (\<exists>status. api_post env (ZABBIX_API_URL cfg) (ZABBIX_API_TOKEN cfg) method arg =
                 Response status Json_without_result \<and> \<not> raise_for_status status)"
  by (auto simp: api_result_def split: reply.splits api_body.splits)

lemma host_skipped:
  assumes "(\<exists>e. api_result cfg env ''host.get'' h = Inl e \<and> caught_host_id e) \<or>
           api_result cfg env ''host.get'' h = Inr [] \<or>
           (\<exists>first rest host_id e. api_result cfg env ''host.get'' h = Inr (first # rest) \<and>
              getitem first ''hostid'' = Inr host_id \<and>
              api_result cfg env ''item.get'' host_id = Inl e \<and> caught_items e) \<or>
           (\<exists>first rest host_id. api_result cfg env ''host.get'' h = Inr (first # rest) \<and>
              getitem first ''hostid'' = Inr host_id \<and>
              api_result cfg env ''item.get'' host_id = Inr [])"
  shows "\<exists>w1. files w1 = files w \<and> host_loop cfg env (h # hs) q w = host_loop cfg env hs q w1"
proof -
  from assms have none: "host_raises cfg env h = None"
    by (auto simp: host_raises_def)
  from assms have empty: "host_items cfg env h = []"
    by (auto simp: host_items_def)
  from host_loop_Cons_items [OF none, of w hs q] empty show ?thesis
    by auto
qed

lemma listing_without_result_raises:
  assumes "api_result cfg env ''host.get'' h = Inr (first # rest)"
    and "getitem first ''hostid'' = Inr host_id"
    and "api_result cfg env ''item.get'' host_id = Inl KeyError"
  shows "fst (host_loop cfg env (h # hs) q w) = Inl KeyError"
proof -
  from assms have "host_raises cfg env h = Some KeyError"
    by (simp add: host_raises_def caught_items_def)
  from host_loop_Cons_raises [OF this, of hs q w] show ?thesis by auto
qed

text \<open>
  Claim C4. A failure of the resolution or of the item listing for one host (HTTP
  error, invalid JSON, missing \<open>result\<close> field, no match) should skip that host only. The
  listing of the items does not do so for a missing \<open>result\<close> field: \<open>srv-a\<close> resolves, its
  \<open>item.get\<close> is answered by an object without \<open>result\<close>, the \<open>KeyError\<close> is not among the
  exceptions caught there, and it leaves \<open>create_download_queue\<close> and \<open>main\<close>: no queue
  is returned and the entry of \<open>srv-b\<close> is lost. The same answer to \<open>host.get\<close> is caught
  and the queue holds the entry of \<open>srv-b\<close>.
\<close>

theorem listing_without_result_aborts_run:
  "host_raises scenario_cfg error_object_env ''srv-a'' = Some KeyError \<and>
   fst (create_download_queue scenario_cfg error_object_env [] fresh_world) = Inl KeyError \<and>
   fst (main scenario_cfg error_object_env fresh_world) = Inl KeyError \<and>
   host_raises scenario_cfg error_object_env_host ''srv-a'' = None \<and>
   fst (create_download_queue scenario_cfg error_object_env_host [] fresh_world) =
     Inr [(item_url scenario_cfg ''2'',
           ''/work/srv-b/srv-b_Memory_2_2024-01-01_000000_2024-01-02_000000.png'')]"
proof -
  have "host_raises scenario_cfg error_object_env ''srv-a'' = Some KeyError" by code_simp
  moreover have "fst (create_download_queue scenario_cfg error_object_env [] fresh_world) = Inl KeyError"
    by code_simp
  moreover have "fst (main scenario_cfg error_object_env fresh_world) = Inl KeyError"
    by code_simp
  moreover have "host_raises scenario_cfg error_object_env_host ''srv-a'' = None" by code_simp
  moreover have "fst (create_download_queue scenario_cfg error_object_env_host [] fresh_world) =
     Inr [(item_url scenario_cfg ''2'',
           ''/work/srv-b/srv-b_Memory_2_2024-01-01_000000_2024-01-02_000000.png'')]"
    by code_simp
  ultimately show ?thesis by blast
qed

section \<open>A second run\<close>













text \<open>
  Why the file must have been written: the image endpoint answers every request with
  status 200, but the file of the item cannot be opened. The first run makes its three
  attempts and leaves no file, and the second run queues the same image again.
\<close>

lemma answered_second_run_queue_not_empty:
  "image_post unwritable_env (item_url scenario_cfg ''1'') [(''Cookie'', ''zbx_session=abc'')] 0 =
     Response 200 ''PNG'' \<and>
   fst (main scenario_cfg unwritable_env fresh_world) = Inr () \<and>
   image_requests (snd (main scenario_cfg unwritable_env fresh_world)) = 3 \<and>
   fst (create_download_queue scenario_cfg unwritable_env [(''Cookie'', ''zbx_session=abc'')]
          (snd (main scenario_cfg unwritable_env fresh_world))) =
     Inr [(item_url scenario_cfg ''1'',
           ''/work/srv-a/srv-a_CPU_1_2024-01-01_000000_2024-01-02_000000.png'')]"
proof -
  have "image_post unwritable_env u c 0 = Response 200 ''PNG''" for u c
    by (simp add: unwritable_env_def scenario_env_def)
  moreover have "fst (main scenario_cfg unwritable_env fresh_world) = Inr ()" by code_simp
  moreover have "image_requests (snd (main scenario_cfg unwritable_env fresh_world)) = 3"
    by code_simp
  moreover have "fst (create_download_queue scenario_cfg unwritable_env [(''Cookie'', ''zbx_session=abc'')]
          (snd (main scenario_cfg unwritable_env fresh_world))) =
     Inr [(item_url scenario_cfg ''1'',
           ''/work/srv-a/srv-a_CPU_1_2024-01-01_000000_2024-01-02_000000.png'')]"
    by code_simp
  ultimately show ?thesis by blast
qed

text \<open>
  Why the item ids must differ: the server lists two items with the id 1. The first run
  keeps one entry for their common URL, that of the item listed last, and fetches that
  file only; the second run queues the other item.
\<close>

lemma shared_item_id_second_run:
  "fst (main scenario_cfg shared_id_env fresh_world) = Inr () \<and>
   fst (create_download_queue scenario_cfg shared_id_env [] fresh_world) =
     Inr [(item_url scenario_cfg ''1'',
           ''/work/srv-a/srv-a_Load_1_2024-01-01_000000_2024-01-02_000000.png'')] \<and>
   fst (create_download_queue scenario_cfg shared_id_env []
          (snd (main scenario_cfg shared_id_env fresh_world))) =
     Inr [(item_url scenario_cfg ''1'',
           ''/work/srv-a/srv-a_CPU_1_2024-01-01_000000_2024-01-02_000000.png'')]"
proof -
  have "fst (main scenario_cfg shared_id_env fresh_world) = Inr ()" by code_simp
  moreover have "fst (create_download_queue scenario_cfg shared_id_env [] fresh_world) =
     Inr [(item_url scenario_cfg ''1'',
           ''/work/srv-a/srv-a_Load_1_2024-01-01_000000_2024-01-02_000000.png'')]"
    by code_simp
  moreover have "fst (create_download_queue scenario_cfg shared_id_env []
          (snd (main scenario_cfg shared_id_env fresh_world))) =
     Inr [(item_url scenario_cfg ''1'',
           ''/work/srv-a/srv-a_CPU_1_2024-01-01_000000_2024-01-02_000000.png'')]"
    by code_simp
  ultimately show ?thesis by blast
qed

end
